theory Spec2Isabelle
  imports Complex_Main
begin

section \<open>Constants and data model\<close>

text \<open>
  The generator of \<^verbatim>\<open>wojtekmal_gen_in.cpp\<close> computes in C++ \<^verbatim>\<open>double\<close>.
  The embedding reads every \<^verbatim>\<open>double\<close> as a real number: \<^verbatim>\<open>std::sqrt\<close>,
  \<^verbatim>\<open>std::abs\<close>, \<^verbatim>\<open>std::cos\<close>, \<^verbatim>\<open>std::sin\<close> and \<^verbatim>\<open>M_PI\<close> are
  \<^term>\<open>sqrt\<close>, \<^term>\<open>abs\<close>, \<^term>\<open>cos\<close>, \<^term>\<open>sin\<close> and \<^term>\<open>pi\<close>.
  Rounding, infinities and NaN are outside the model.
\<close>

definition DANGER_EPS :: real where
  "DANGER_EPS = 5 / 100"

definition ZERO_TOLERANCE :: real where
  "ZERO_TOLERANCE = 1 / 1000000000"

definition MAX_TRIES :: nat where
  "MAX_TRIES = 100"

text \<open>
  The structs of the source. A field \<^verbatim>\<open>s.f\<close> is written with the struct's initial in
  front (\<^verbatim>\<open>p.x\<close> is \<open>p_x p\<close>, \<^verbatim>\<open>l.p1\<close> is \<open>l_p1 l\<close>, \<^verbatim>\<open>c.r\<close> is \<open>c_r c\<close>), so that
  the one-letter field names stay free for variables.
\<close>

record Point =
  p_x :: real
  p_y :: real

record Line =
  l_p1 :: Point
  l_p2 :: Point

record Circle =
  c_c :: Point
  c_r :: real

record SheetGeometry =
  points :: "Point list"
  lines :: "Line list"
  circles :: "Circle list"

section \<open>Mathematical functions\<close>

definition distSq :: "Point \<Rightarrow> Point \<Rightarrow> real" where
  "distSq a b = (p_x a - p_x b) * (p_x a - p_x b) + (p_y a - p_y b) * (p_y a - p_y b)"

text \<open>\<^verbatim>\<open>dist\<close> of the source; the name \<open>dist\<close> is the metric of HOL.\<close>

definition dist_pt :: "Point \<Rightarrow> Point \<Rightarrow> real" where
  "dist_pt a b = sqrt (distSq a b)"

definition distPointLine :: "Point \<Rightarrow> Line \<Rightarrow> real" where
  "distPointLine p l =
     (let A = p_x p - p_x (l_p1 l);
          B = p_y p - p_y (l_p1 l);
          C = p_x (l_p2 l) - p_x (l_p1 l);
          D = p_y (l_p2 l) - p_y (l_p1 l);
          dot = A * C + B * D;
          len_sq = C * C + D * D
      in if len_sq < ZERO_TOLERANCE then dist_pt p (l_p1 l)
         else
           let param = dot / len_sq;
               xx = p_x (l_p1 l) + param * C;
               yy = p_y (l_p1 l) + param * D
           in dist_pt p \<lparr>p_x = xx, p_y = yy\<rparr>)"

definition reflectPoint :: "Point \<Rightarrow> Line \<Rightarrow> Point" where
  "reflectPoint p l =
     (let A = p_x p - p_x (l_p1 l);
          B = p_y p - p_y (l_p1 l);
          C = p_x (l_p2 l) - p_x (l_p1 l);
          D = p_y (l_p2 l) - p_y (l_p1 l);
          len_sq = C * C + D * D
      in if len_sq < ZERO_TOLERANCE then p
         else
           let dot = A * C + B * D;
               param = dot / len_sq;
               xx = p_x (l_p1 l) + param * C;
               yy = p_y (l_p1 l) + param * D
           in \<lparr>p_x = 2 * xx - p_x p, p_y = 2 * yy - p_y p\<rparr>)"

section \<open>Validation of a test\<close>

text \<open>
  The test every loop of \<^verbatim>\<open>isSafePoint\<close> and \<^verbatim>\<open>isSafeFold\<close> applies to a distance
  \<open>d\<close>: \<^verbatim>\<open>d > ZERO_TOLERANCE && d < DANGER_EPS\<close>.
\<close>

definition in_danger_band :: "real \<Rightarrow> bool" where
  "in_danger_band d \<longleftrightarrow> d > ZERO_TOLERANCE \<and> d < DANGER_EPS"

text \<open>
  The three loops of \<^verbatim>\<open>isSafePoint\<close>, each leaving with \<^verbatim>\<open>return false\<close> at the
  first feature in the band; \<open>True\<close> means that the loop ran to its end.
\<close>

fun isSafePoint_points :: "Point \<Rightarrow> Point list \<Rightarrow> bool" where
  "isSafePoint_points p [] = True"
| "isSafePoint_points p (pt # pts) =
     (let d = dist_pt p pt
      in if in_danger_band d then False else isSafePoint_points p pts)"

fun isSafePoint_lines :: "Point \<Rightarrow> Line list \<Rightarrow> bool" where
  "isSafePoint_lines p [] = True"
| "isSafePoint_lines p (l # ls) =
     (let d = distPointLine p l
      in if in_danger_band d then False else isSafePoint_lines p ls)"

fun isSafePoint_circles :: "Point \<Rightarrow> Circle list \<Rightarrow> bool" where
  "isSafePoint_circles p [] = True"
| "isSafePoint_circles p (c # cs) =
     (let d_center = dist_pt p (c_c c);
          d_boundary = \<bar>d_center - c_r c\<bar>
      in if in_danger_band d_boundary then False else isSafePoint_circles p cs)"

definition isSafePoint :: "Point \<Rightarrow> SheetGeometry \<Rightarrow> bool" where
  "isSafePoint p geom =
     (if \<not> isSafePoint_points p (points geom) then False
      else if \<not> isSafePoint_lines p (lines geom) then False
      else if \<not> isSafePoint_circles p (circles geom) then False
      else True)"

text \<open>The two loops of \<^verbatim>\<open>isSafeFold\<close>.\<close>

fun isSafeFold_points :: "Line \<Rightarrow> Point list \<Rightarrow> bool" where
  "isSafeFold_points l [] = True"
| "isSafeFold_points l (pt # pts) =
     (let d = distPointLine pt l
      in if in_danger_band d then False else isSafeFold_points l pts)"

fun isSafeFold_circles :: "Line \<Rightarrow> Circle list \<Rightarrow> bool" where
  "isSafeFold_circles l [] = True"
| "isSafeFold_circles l (c # cs) =
     (let d = distPointLine (c_c c) l
      in if in_danger_band d then False
         else if in_danger_band \<bar>d - c_r c\<bar> then False
         else isSafeFold_circles l cs)"

definition isSafeFold :: "Line \<Rightarrow> SheetGeometry \<Rightarrow> bool" where
  "isSafeFold l geom =
     (if \<not> isSafeFold_points l (points geom) then False
      else if \<not> isSafeFold_circles l (circles geom) then False
      else True)"

text \<open>
  The classification of the specification: a distance is acceptable when it is
  ``on'' the feature or ``safe''.
\<close>

definition clear_of :: "real \<Rightarrow> bool" where
  "clear_of d \<longleftrightarrow> d \<le> ZERO_TOLERANCE \<or> d \<ge> DANGER_EPS"

text \<open>
  A point lies on the infinite line through the two points of \<open>l\<close>: the cross
  product of \<open>p - p1\<close> and \<open>p2 - p1\<close> vanishes.
\<close>

definition on_line :: "Point \<Rightarrow> Line \<Rightarrow> bool" where
  "on_line p l \<longleftrightarrow>
     (p_x p - p_x (l_p1 l)) * (p_y (l_p2 l) - p_y (l_p1 l))
       = (p_y p - p_y (l_p1 l)) * (p_x (l_p2 l) - p_x (l_p1 l))"

text \<open>The point of the line at parameter \<open>t\<close>: \<open>p1 + t (p2 - p1)\<close>, for any real \<open>t\<close>.\<close>

definition line_at :: "Line \<Rightarrow> real \<Rightarrow> Point" where
  "line_at l t =
     \<lparr>p_x = p_x (l_p1 l) + t * (p_x (l_p2 l) - p_x (l_p1 l)),
      p_y = p_y (l_p1 l) + t * (p_y (l_p2 l) - p_y (l_p1 l))\<rparr>"

section \<open>The generator\<close>

subsection \<open>Random source, output and outcomes\<close>

text \<open>
  \<^verbatim>\<open>std::mt19937\<close> and the distributions of \<^verbatim>\<open><random>\<close> are library code. They
  are parameters of the model: a record of three functions over the state \<open>'s\<close> of the
  engine, each returning the value drawn and the next state. \<open>rng_call\<close> is the call
  \<^verbatim>\<open>rng()\<close>, \<open>uniform_int a b\<close> is \<^verbatim>\<open>std::uniform_int_distribution<int>(a, b)(rng)\<close> and
  \<open>uniform_real a b\<close> is \<^verbatim>\<open>std::uniform_real_distribution<double>(a, b)(rng)\<close>.
\<close>

record 's rng_ops =
  rng_call :: "'s \<Rightarrow> nat \<times> 's"
  uniform_int :: "int \<Rightarrow> int \<Rightarrow> 's \<Rightarrow> int \<times> 's"
  uniform_real :: "real \<Rightarrow> real \<Rightarrow> 's \<Rightarrow> real \<times> 's"

text \<open>
  What the library promises of a distribution: a value drawn from \<open>(a, b)\<close> lies
  between \<open>a\<close> and \<open>b\<close>.
\<close>

definition rng_ok :: "'s rng_ops \<Rightarrow> bool" where
  "rng_ok ops \<longleftrightarrow>
     (\<forall>a b s. a \<le> b \<longrightarrow> a \<le> fst (uniform_int ops a b s) \<and> fst (uniform_int ops a b s) \<le> b)
   \<and> (\<forall>a b s. a \<le> b \<longrightarrow> a \<le> fst (uniform_real ops a b s) \<and> fst (uniform_real ops a b s) \<le> b)"

text \<open>The distributions \<^verbatim>\<open>coord_dist\<close>, \<^verbatim>\<open>size_dist\<close> and \<^verbatim>\<open>type_dist\<close> of \<^verbatim>\<open>generate_test\<close>.\<close>

definition coord_dist :: "'s rng_ops \<Rightarrow> 's \<Rightarrow> real \<times> 's" where
  "coord_dist ops = uniform_real ops (- 10) 10"

definition size_dist :: "'s rng_ops \<Rightarrow> 's \<Rightarrow> real \<times> 's" where
  "size_dist ops = uniform_real ops 1 5"

definition type_dist :: "'s rng_ops \<Rightarrow> 's \<Rightarrow> int \<times> 's" where
  "type_dist ops = uniform_int ops 0 2"

text \<open>
  The records written to the file, one constructor for each kind of line: the header
  \<^verbatim>\<open>n q\<close>, \<^verbatim>\<open>P x1 y1 x2 y2\<close>, \<^verbatim>\<open>K x y r\<close>, \<^verbatim>\<open>Z k x1 y1 x2 y2\<close> and the query
  \<^verbatim>\<open>k x y\<close>. The decimal rendering of the numbers is not modelled. The content of the
  file is the list of the records written so far.
\<close>

datatype out_line =
    OutHeader int int
  | OutP real real real real
  | OutK real real real
  | OutZ int real real real real
  | OutQ int real real

text \<open>
  One pass through the body of a retry loop either accepts a candidate
  (\<^verbatim>\<open>success = true; break\<close>), or rejects it (\<^verbatim>\<open>continue\<close>, or the end of the body),
  or has undefined behaviour: a vector read out of range, or a distribution built on
  an empty range.
\<close>

datatype 'a attempt = Accepted 'a | Rejected | Undefined

text \<open>
  How a call of \<^verbatim>\<open>generate_test\<close> ends: it returns a \<^verbatim>\<open>bool\<close>,
  \<^verbatim>\<open>sheets.reserve(n + 1)\<close> throws \<^verbatim>\<open>std::length_error\<close> (a negative \<open>n + 1\<close>,
  converted to \<^verbatim>\<open>size_t\<close>), or the behaviour is undefined.
\<close>

datatype status = Returned bool | LengthError | UndefinedBehaviour

subsection \<open>Geometry of a new sheet\<close>

text \<open>\<^verbatim>\<open>sheets.push_back({})\<close>: the sheet of index 0.\<close>

definition emptySheet :: SheetGeometry where
  "emptySheet = \<lparr>points = [], lines = [], circles = []\<rparr>"

text \<open>\<^verbatim>\<open>newGeom\<close> of the branch \<^verbatim>\<open>type == 0\<close>.\<close>

definition rectangleSheet :: "real \<Rightarrow> real \<Rightarrow> real \<Rightarrow> real \<Rightarrow> SheetGeometry" where
  "rectangleSheet x1 y1 x2 y2 =
     \<lparr>points = [\<lparr>p_x = x1, p_y = y1\<rparr>, \<lparr>p_x = x2, p_y = y1\<rparr>,
                \<lparr>p_x = x2, p_y = y2\<rparr>, \<lparr>p_x = x1, p_y = y2\<rparr>],
      lines = [\<lparr>l_p1 = \<lparr>p_x = x1, p_y = y1\<rparr>, l_p2 = \<lparr>p_x = x2, p_y = y1\<rparr>\<rparr>,
               \<lparr>l_p1 = \<lparr>p_x = x2, p_y = y1\<rparr>, l_p2 = \<lparr>p_x = x2, p_y = y2\<rparr>\<rparr>,
               \<lparr>l_p1 = \<lparr>p_x = x2, p_y = y2\<rparr>, l_p2 = \<lparr>p_x = x1, p_y = y2\<rparr>\<rparr>,
               \<lparr>l_p1 = \<lparr>p_x = x1, p_y = y2\<rparr>, l_p2 = \<lparr>p_x = x1, p_y = y1\<rparr>\<rparr>],
      circles = []\<rparr>"

text \<open>\<^verbatim>\<open>newGeom\<close> of the branch \<^verbatim>\<open>type == 1\<close>.\<close>

definition circleSheet :: "real \<Rightarrow> real \<Rightarrow> real \<Rightarrow> SheetGeometry" where
  "circleSheet x y r =
     \<lparr>points = [\<lparr>p_x = x, p_y = y\<rparr>],
      lines = [],
      circles = [\<lparr>c_c = \<lparr>p_x = x, p_y = y\<rparr>, c_r = r\<rparr>]\<rparr>"

text \<open>
  \<^verbatim>\<open>newGeom\<close> of an accepted fold: the copy of \<^verbatim>\<open>baseGeom\<close>, then the three loops
  that push the mirror image of every point, line and circle of \<^verbatim>\<open>baseGeom\<close>, then
  \<^verbatim>\<open>newGeom.lines.push_back(foldLine)\<close>.
\<close>

definition foldSheet :: "SheetGeometry \<Rightarrow> Line \<Rightarrow> SheetGeometry" where
  "foldSheet baseGeom foldLine =
     \<lparr>points = points baseGeom @ map (\<lambda>p. reflectPoint p foldLine) (points baseGeom),
      lines = (lines baseGeom
                @ map (\<lambda>l. \<lparr>l_p1 = reflectPoint (l_p1 l) foldLine,
                             l_p2 = reflectPoint (l_p2 l) foldLine\<rparr>) (lines baseGeom))
                @ [foldLine],
      circles = circles baseGeom
                @ map (\<lambda>c. \<lparr>c_c = reflectPoint (c_c c) foldLine, c_r = c_r c\<rparr>)
                    (circles baseGeom)\<rparr>"

subsection \<open>Candidates\<close>

text \<open>\<^verbatim>\<open>{coord_dist(rng), coord_dist(rng)}\<close>: the first draw is \<open>x\<close>, the second \<open>y\<close>.\<close>

definition random_point :: "'s rng_ops \<Rightarrow> 's \<Rightarrow> Point \<times> 's" where
  "random_point ops s =
     (let (x, s1) = coord_dist ops s;
          (y, s2) = coord_dist ops s1
      in (\<lparr>p_x = x, p_y = y\<rparr>, s2))"

text \<open>The fully random fold line: \<^verbatim>\<open>foldLine.p1\<close>, then \<^verbatim>\<open>foldLine.p2\<close>.\<close>

definition random_line :: "'s rng_ops \<Rightarrow> 's \<Rightarrow> Line \<times> 's" where
  "random_line ops s =
     (let (a, s1) = random_point ops s;
          (b, s2) = random_point ops s1
      in (\<lparr>l_p1 = a, l_p2 = b\<rparr>, s2))"

text \<open>
  An element of a vector picked by \<^verbatim>\<open>std::uniform_int_distribution<int>(0, size - 1)\<close>;
  \<open>None\<close> when the index drawn is not an index of the vector.
\<close>

definition pick :: "'s rng_ops \<Rightarrow> 'a list \<Rightarrow> 's \<Rightarrow> 'a option \<times> 's" where
  "pick ops xs s =
     (let (idx, s1) = uniform_int ops 0 (int (length xs) - 1) s
      in if 0 \<le> idx \<and> idx < int (length xs) then (Some (xs ! nat idx), s1) else (None, s1))"

text \<open>
  The choice of \<^verbatim>\<open>foldLine\<close> in the branch of a fold, from the draw of
  \<^verbatim>\<open>strategy\<close> on; \<open>None\<close> when a vector is read out of range.
\<close>

definition choose_fold_line :: "'s rng_ops \<Rightarrow> SheetGeometry \<Rightarrow> 's \<Rightarrow> Line option \<times> 's" where
  "choose_fold_line ops baseGeom s =
     (let (strategy, s1) = uniform_int ops 0 2 s
      in if strategy = 0 \<or> points baseGeom = [] then
           (let (l, s2) = random_line ops s1 in (Some l, s2))
         else if strategy = 1 then
           (case pick ops (points baseGeom) s1 of
              (None, s2) \<Rightarrow> (None, s2)
            | (Some p, s2) \<Rightarrow>
                (let (angle, s3) = uniform_real ops 0 (2 * pi) s2
                 in (Some \<lparr>l_p1 = p,
                           l_p2 = \<lparr>p_x = p_x p + cos angle, p_y = p_y p + sin angle\<rparr>\<rparr>, s3)))
         else if circles baseGeom \<noteq> [] then
           (case pick ops (circles baseGeom) s1 of
              (None, s2) \<Rightarrow> (None, s2)
            | (Some c, s2) \<Rightarrow>
                (let (angle, s3) = uniform_real ops 0 (2 * pi) s2;
                     tangentPoint = \<lparr>p_x = p_x (c_c c) + c_r c * cos angle,
                                     p_y = p_y (c_c c) + c_r c * sin angle\<rparr>
                 in (Some \<lparr>l_p1 = tangentPoint,
                           l_p2 = \<lparr>p_x = p_x tangentPoint - sin angle,
                                   p_y = p_y tangentPoint + cos angle\<rparr>\<rparr>, s3)))
         else
           (let (l, s2) = random_line ops s1 in (Some l, s2)))"

text \<open>
  The choice of the query point \<^verbatim>\<open>p\<close>, from the draw of \<^verbatim>\<open>strategy\<close> on.
\<close>

definition choose_query_point :: "'s rng_ops \<Rightarrow> SheetGeometry \<Rightarrow> 's \<Rightarrow> Point option \<times> 's" where
  "choose_query_point ops geom s =
     (let (strategy, s1) = uniform_int ops 0 2 s
      in if strategy = 0 \<or> points geom = [] then
           (let (p, s2) = random_point ops s1 in (Some p, s2))
         else pick ops (points geom) s1)"

subsection \<open>One attempt at a sheet, one attempt at a query\<close>

text \<open>
  The body of the inner loop of the sheets, for the sheet of index \<open>i\<close>. An accepted
  attempt gives the geometry pushed on \<^verbatim>\<open>sheets\<close> and the record written to the file.
\<close>

definition sheet_try ::
  "'s rng_ops \<Rightarrow> SheetGeometry list \<Rightarrow> int \<Rightarrow> 's \<Rightarrow> (SheetGeometry \<times> out_line) attempt \<times> 's" where
  "sheet_try ops sheets i s =
     (let (type0, s1) = (if i = 1 then (let (w, s') = rng_call ops s in (int (w mod 2), s'))
                         else type_dist ops s);
          type = (if type0 = 2 \<and> i = 1 then 0 else type0)
      in if type = 0 then
           (let (x1, s2) = coord_dist ops s1;
                (y1, s3) = coord_dist ops s2;
                (w, s4) = size_dist ops s3;
                (h, s5) = size_dist ops s4;
                x2 = x1 + w;
                y2 = y1 + h
            in (Accepted (rectangleSheet x1 y1 x2 y2, OutP x1 y1 x2 y2), s5))
         else if type = 1 then
           (let (x, s2) = coord_dist ops s1;
                (y, s3) = coord_dist ops s2;
                (r, s4) = size_dist ops s3
            in (Accepted (circleSheet x y r, OutK x y r), s4))
         else if i - 1 < 1 then (Undefined, s1)
         else
           (let (k, s2) = uniform_int ops 1 (i - 1) s1
            in if k < 0 \<or> int (length sheets) \<le> k then (Undefined, s2)
               else
                 (let baseGeom = sheets ! nat k
                  in case choose_fold_line ops baseGeom s2 of
                       (None, s3) \<Rightarrow> (Undefined, s3)
                     | (Some foldLine, s3) \<Rightarrow>
                         if distSq (l_p1 foldLine) (l_p2 foldLine) < ZERO_TOLERANCE
                         then (Rejected, s3)
                         else if \<not> isSafeFold foldLine baseGeom then (Rejected, s3)
                         else (Accepted (foldSheet baseGeom foldLine,
                                 OutZ k (p_x (l_p1 foldLine)) (p_y (l_p1 foldLine))
                                        (p_x (l_p2 foldLine)) (p_y (l_p2 foldLine))), s3))))"

text \<open>The body of the inner loop of the queries.\<close>

definition query_try ::
  "'s rng_ops \<Rightarrow> SheetGeometry list \<Rightarrow> int \<Rightarrow> 's \<Rightarrow> out_line attempt \<times> 's" where
  "query_try ops sheets n s =
     (if n < 1 then (Undefined, s)
      else
        (let (k, s1) = uniform_int ops 1 n s
         in if k < 0 \<or> int (length sheets) \<le> k then (Undefined, s1)
            else
              (let geom = sheets ! nat k
               in case choose_query_point ops geom s1 of
                    (None, s2) \<Rightarrow> (Undefined, s2)
                  | (Some p, s2) \<Rightarrow>
                      if isSafePoint p geom then (Accepted (OutQ k (p_x p) (p_y p)), s2)
                      else (Rejected, s2))))"

subsection \<open>The loops\<close>

text \<open>
  \<^verbatim>\<open>for (int try_count = 0; try_count < MAX_TRIES; ++try_count)\<close> around a body: the
  loop of both the sheets and the queries. \<open>Rejected\<close> is the exit with
  \<^verbatim>\<open>success\<close> still \<^verbatim>\<open>false\<close>.
\<close>

function retry_loop :: "('s \<Rightarrow> 'a attempt \<times> 's) \<Rightarrow> nat \<Rightarrow> 's \<Rightarrow> 'a attempt \<times> 's" where
  "retry_loop body try_count s =
     (if try_count < MAX_TRIES then
        (case body s of
           (Accepted r, s') \<Rightarrow> (Accepted r, s')
         | (Rejected, s') \<Rightarrow> retry_loop body (try_count + 1) s'
         | (Undefined, s') \<Rightarrow> (Undefined, s'))
      else (Rejected, s))"
  by pat_completeness auto
termination
  by (relation "measure (\<lambda>(body, try_count, s). MAX_TRIES - try_count)") auto

declare retry_loop.simps [simp del]

text \<open>The state of the random source after \<open>j\<close> passes through a body.\<close>

definition state_after :: "('s \<Rightarrow> 'a attempt \<times> 's) \<Rightarrow> nat \<Rightarrow> 's \<Rightarrow> 's" where
  "state_after body j s = ((\<lambda>s. snd (body s)) ^^ j) s"

text \<open>\<^verbatim>\<open>for (int i = 1; i <= n; ++i)\<close>, from the index \<open>i\<close> on.\<close>

function gen_sheets ::
  "'s rng_ops \<Rightarrow> int \<Rightarrow> int \<Rightarrow> SheetGeometry list \<Rightarrow> out_line list \<Rightarrow> 's
     \<Rightarrow> SheetGeometry list attempt \<times> out_line list \<times> 's" where
  "gen_sheets ops n i sheets file s =
     (if i \<le> n then
        (case retry_loop (sheet_try ops sheets i) 0 s of
           (Accepted (newGeom, lineOutput), s') \<Rightarrow>
             gen_sheets ops n (i + 1) (sheets @ [newGeom]) (file @ [lineOutput]) s'
         | (Rejected, s') \<Rightarrow> (Rejected, file, s')
         | (Undefined, s') \<Rightarrow> (Undefined, file, s'))
      else (Accepted sheets, file, s))"
  by pat_completeness auto
termination
  by (relation "measure (\<lambda>(ops, n, i, sheets, file, s). nat (n + 1 - i))") auto

declare gen_sheets.simps [simp del]

text \<open>\<^verbatim>\<open>for (int j = 0; j < q; ++j)\<close>, from the index \<open>j\<close> on.\<close>

function gen_queries ::
  "'s rng_ops \<Rightarrow> SheetGeometry list \<Rightarrow> int \<Rightarrow> int \<Rightarrow> int \<Rightarrow> out_line list \<Rightarrow> 's
     \<Rightarrow> unit attempt \<times> out_line list \<times> 's" where
  "gen_queries ops sheets n q j file s =
     (if j < q then
        (case retry_loop (query_try ops sheets n) 0 s of
           (Accepted lineOutput, s') \<Rightarrow> gen_queries ops sheets n q (j + 1) (file @ [lineOutput]) s'
         | (Rejected, s') \<Rightarrow> (Rejected, file, s')
         | (Undefined, s') \<Rightarrow> (Undefined, file, s'))
      else (Accepted (), file, s))"
  by pat_completeness auto
termination
  by (relation "measure (\<lambda>(ops, sheets, n, q, j, file, s). nat (q - j))") auto

declare gen_queries.simps [simp del]

subsection \<open>\<^verbatim>\<open>generate_test\<close>\<close>

text \<open>
  \<open>is_open\<close> is \<^verbatim>\<open>file.is_open()\<close> after the file at \<^verbatim>\<open>path\<close> has been opened. The
  result is how the call ends, the content of the file when it ends, and the state of
  \<^verbatim>\<open>rng\<close>, which the caller passed by reference.
\<close>

definition generate_test ::
  "'s rng_ops \<Rightarrow> bool \<Rightarrow> 's \<Rightarrow> int \<Rightarrow> int \<Rightarrow> status \<times> out_line list \<times> 's" where
  "generate_test ops is_open rng n q =
     (if \<not> is_open then (Returned False, [], rng)
      else if n + 1 < 0 then (LengthError, [], rng)
      else
        (case gen_sheets ops n 1 [emptySheet] [OutHeader n q] rng of
           (Rejected, file, rng1) \<Rightarrow> (Returned False, file, rng1)
         | (Undefined, file, rng1) \<Rightarrow> (UndefinedBehaviour, file, rng1)
         | (Accepted sheets, file, rng1) \<Rightarrow>
             (case gen_queries ops sheets n q 0 file rng1 of
                (Rejected, file', rng2) \<Rightarrow> (Returned False, file', rng2)
              | (Undefined, file', rng2) \<Rightarrow> (UndefinedBehaviour, file', rng2)
              | (Accepted u, file', rng2) \<Rightarrow> (Returned True, file', rng2))))"

subsection \<open>Random sources for the examples\<close>

text \<open>
  A source that replays a tape: every draw takes the next number of the tape, cut to
  the requested range; an empty tape gives the lower end.
\<close>

definition tape_ops :: "real list rng_ops" where
  "tape_ops =
     \<lparr>rng_call = (\<lambda>s. case s of [] \<Rightarrow> (0, []) | v # vs \<Rightarrow> (nat \<lfloor>v\<rfloor>, vs)),
      uniform_int = (\<lambda>a b s. case s of [] \<Rightarrow> (a, []) | v # vs \<Rightarrow> (max a (min b \<lfloor>v\<rfloor>), vs)),
      uniform_real = (\<lambda>a b s. case s of [] \<Rightarrow> (a, []) | v # vs \<Rightarrow> (max a (min b v), vs))\<rparr>"

text \<open>
  A source without state: \<^verbatim>\<open>rng()\<close> is 0, an integer distribution gives its upper end
  and a real distribution its lower end.
\<close>

definition const_ops :: "unit rng_ops" where
  "const_ops =
     \<lparr>rng_call = (\<lambda>s. (0, s)),
      uniform_int = (\<lambda>a b s. (b, s)),
      uniform_real = (\<lambda>a b s. (a, s))\<rparr>"

text \<open>A sheet with two points, a line and a circle.\<close>

definition example_sheet :: SheetGeometry where
  "example_sheet =
     \<lparr>points = [\<lparr>p_x = 0, p_y = 0\<rparr>, \<lparr>p_x = 3, p_y = 0\<rparr>],
      lines = [\<lparr>l_p1 = \<lparr>p_x = 0, p_y = 0\<rparr>, l_p2 = \<lparr>p_x = 3, p_y = 0\<rparr>\<rparr>],
      circles = [\<lparr>c_c = \<lparr>p_x = 3, p_y = 0\<rparr>, c_r = 2\<rparr>]\<rparr>"

subsection \<open>Predicates on sheets\<close>

text \<open>
  \<^verbatim>\<open>len_sq\<close> as \<^verbatim>\<open>distPointLine\<close> and \<^verbatim>\<open>reflectPoint\<close> compute it: both take their
  fallback branch exactly when it is below \<open>ZERO_TOLERANCE\<close>.
\<close>

definition len_sq :: "Line \<Rightarrow> real" where
  "len_sq l =
     (let C = p_x (l_p2 l) - p_x (l_p1 l);
          D = p_y (l_p2 l) - p_y (l_p1 l)
      in C * C + D * D)"

text \<open>Every circle of a sheet has its radius between 1 and 5.\<close>

definition radii_in_range :: "SheetGeometry \<Rightarrow> bool" where
  "radii_in_range g \<longleftrightarrow> (\<forall>c \<in> set (circles g). 1 \<le> c_r c \<and> c_r c \<le> 5)"

text \<open>No line of a sheet has its two points within tolerance of each other.\<close>

definition lines_nondegenerate :: "SheetGeometry \<Rightarrow> bool" where
  "lines_nondegenerate g \<longleftrightarrow>
     (\<forall>l \<in> set (lines g). ZERO_TOLERANCE \<le> distSq (l_p1 l) (l_p2 l))"

section \<open>Properties of the geometry\<close>

lemma clear_of_iff: "clear_of d \<longleftrightarrow> \<not> in_danger_band d"
  by (auto simp: clear_of_def in_danger_band_def)

lemma isSafePoint_points_iff:
  "isSafePoint_points p pts \<longleftrightarrow> (\<forall>pt \<in> set pts. clear_of (dist_pt p pt))"
  by (induction pts) (simp_all add: clear_of_iff)

lemma isSafePoint_lines_iff:
  "isSafePoint_lines p ls \<longleftrightarrow> (\<forall>l \<in> set ls. clear_of (distPointLine p l))"
  by (induction ls) (simp_all add: clear_of_iff)

lemma isSafePoint_circles_iff:
  "isSafePoint_circles p cs \<longleftrightarrow> (\<forall>c \<in> set cs. clear_of \<bar>dist_pt p (c_c c) - c_r c\<bar>)"
  by (induction cs) (simp_all add: clear_of_iff)

lemma isSafeFold_points_iff:
  "isSafeFold_points l pts \<longleftrightarrow> (\<forall>pt \<in> set pts. clear_of (distPointLine pt l))"
  by (induction pts) (simp_all add: clear_of_iff)

lemma isSafeFold_circles_iff:
  "isSafeFold_circles l cs \<longleftrightarrow>
     (\<forall>c \<in> set cs. clear_of (distPointLine (c_c c) l)
                  \<and> clear_of \<bar>distPointLine (c_c c) l - c_r c\<bar>)"
  by (induction cs) (auto simp: clear_of_iff Let_def)

lemma len_sq_distSq:
  "(p_x (l_p2 l) - p_x (l_p1 l)) * (p_x (l_p2 l) - p_x (l_p1 l))
     + (p_y (l_p2 l) - p_y (l_p1 l)) * (p_y (l_p2 l) - p_y (l_p1 l))
   = distSq (l_p1 l) (l_p2 l)"
  by (simp add: distSq_def algebra_simps)

lemma ZERO_TOLERANCE_pos: "0 < ZERO_TOLERANCE"
  by (simp add: ZERO_TOLERANCE_def)

text \<open>The reflection across a non-degenerate line, with the branch resolved.\<close>

lemma reflectPoint_nondegenerate:
  assumes "ZERO_TOLERANCE \<le> distSq (l_p1 l) (l_p2 l)"
  shows "reflectPoint p l =
     (let C = p_x (l_p2 l) - p_x (l_p1 l);
          D = p_y (l_p2 l) - p_y (l_p1 l);
          param = ((p_x p - p_x (l_p1 l)) * C + (p_y p - p_y (l_p1 l)) * D) / (C * C + D * D)
      in \<lparr>p_x = 2 * (p_x (l_p1 l) + param * C) - p_x p,
          p_y = 2 * (p_y (l_p1 l) + param * D) - p_y p\<rparr>)"
  using assms by (simp add: reflectPoint_def Let_def len_sq_distSq)

lemma distPointLine_nondegenerate:
  assumes "ZERO_TOLERANCE \<le> distSq (l_p1 l) (l_p2 l)"
  shows "distPointLine p l =
     (let C = p_x (l_p2 l) - p_x (l_p1 l);
          D = p_y (l_p2 l) - p_y (l_p1 l);
          param = ((p_x p - p_x (l_p1 l)) * C + (p_y p - p_y (l_p1 l)) * D) / (C * C + D * D)
      in dist_pt p \<lparr>p_x = p_x (l_p1 l) + param * C, p_y = p_y (l_p1 l) + param * D\<rparr>)"
  using assms by (simp add: distPointLine_def Let_def len_sq_distSq)

lemma reflect_coords:
  fixes A B C D x1 y1 :: real
  assumes n: "C * C + D * D \<noteq> 0"
  defines "t \<equiv> (A * C + B * D) / (C * C + D * D)"
  shows "((2 * (x1 + t * C) - (x1 + A) - x1) * C + (2 * (y1 + t * D) - (y1 + B) - y1) * D) / (C * C + D * D) = t"
proof -
  have "(2 * (x1 + t * C) - (x1 + A) - x1) * C + (2 * (y1 + t * D) - (y1 + B) - y1) * D
        = 2 * t * (C * C + D * D) - (A * C + B * D)"
    by (simp add: algebra_simps)
  also have "t * (C * C + D * D) = A * C + B * D"
    using n by (simp add: t_def)
  hence "2 * t * (C * C + D * D) - (A * C + B * D) = t * (C * C + D * D)"
    by simp
  finally show ?thesis using n by simp
qed

text \<open>
  Claim C3. For every point \<open>p\<close> and every line \<open>l\<close> whose squared length is at least
  \<open>ZERO_TOLERANCE\<close>, reflecting \<open>p\<close> twice across \<open>l\<close> gives \<open>p\<close> back, exactly over the
  reals.
\<close>

theorem reflectPoint_involution:
  assumes "ZERO_TOLERANCE \<le> distSq (l_p1 l) (l_p2 l)"
  shows "reflectPoint (reflectPoint p l) l = p"
proof -
  define x1 where "x1 = p_x (l_p1 l)"
  define y1 where "y1 = p_y (l_p1 l)"
  define C where "C = p_x (l_p2 l) - x1"
  define D where "D = p_y (l_p2 l) - y1"
  define A where "A = p_x p - x1"
  define B where "B = p_y p - y1"
  define t where "t = (A * C + B * D) / (C * C + D * D)"
  have n: "C * C + D * D \<noteq> 0"
    using assms ZERO_TOLERANCE_pos len_sq_distSq [of l] by (simp add: C_def D_def x1_def y1_def)
  have px: "p_x p = x1 + A" and py: "p_y p = y1 + B" by (simp_all add: A_def B_def)
  have r: "reflectPoint p l = \<lparr>p_x = 2 * (x1 + t * C) - (x1 + A), p_y = 2 * (y1 + t * D) - (y1 + B)\<rparr>"
    by (simp add: reflectPoint_nondegenerate [OF assms] Let_def t_def A_def B_def C_def D_def x1_def y1_def)
  have t': "((2 * (x1 + t * C) - (x1 + A) - x1) * C + (2 * (y1 + t * D) - (y1 + B) - y1) * D) / (C * C + D * D) = t"
    unfolding t_def using n by (rule reflect_coords)
  have "reflectPoint (reflectPoint p l) l = \<lparr>p_x = x1 + A, p_y = y1 + B\<rparr>"
    unfolding r
    apply (simp only: reflectPoint_nondegenerate [OF assms] Let_def Point.simps)
    apply (simp only: x1_def [symmetric] y1_def [symmetric])
    apply (simp only: C_def [symmetric] D_def [symmetric] t')
    apply simp
    done
  thus ?thesis by (simp add: px [symmetric] py [symmetric])
qed


theorem reflectPoint_involution_witness:
  "reflectPoint (reflectPoint \<lparr>p_x = 3, p_y = 1\<rparr> \<lparr>l_p1 = \<lparr>p_x = 0, p_y = 0\<rparr>, l_p2 = \<lparr>p_x = 1, p_y = 1\<rparr>\<rparr>)
      \<lparr>l_p1 = \<lparr>p_x = 0, p_y = 0\<rparr>, l_p2 = \<lparr>p_x = 1, p_y = 1\<rparr>\<rparr> = \<lparr>p_x = 3, p_y = 1\<rparr>
   \<and> reflectPoint \<lparr>p_x = 3, p_y = 1\<rparr> \<lparr>l_p1 = \<lparr>p_x = 0, p_y = 0\<rparr>, l_p2 = \<lparr>p_x = 1, p_y = 1\<rparr>\<rparr>
       = \<lparr>p_x = 1, p_y = 3\<rparr>"
proof -
  have "ZERO_TOLERANCE \<le> distSq \<lparr>p_x = 0, p_y = 0\<rparr> \<lparr>p_x = 1, p_y = 1\<rparr>"
    by (simp add: ZERO_TOLERANCE_def distSq_def)
  hence "reflectPoint (reflectPoint \<lparr>p_x = 3, p_y = 1\<rparr> \<lparr>l_p1 = \<lparr>p_x = 0, p_y = 0\<rparr>, l_p2 = \<lparr>p_x = 1, p_y = 1\<rparr>\<rparr>)
      \<lparr>l_p1 = \<lparr>p_x = 0, p_y = 0\<rparr>, l_p2 = \<lparr>p_x = 1, p_y = 1\<rparr>\<rparr> = \<lparr>p_x = 3, p_y = 1\<rparr>"
    using reflectPoint_involution
      [of "\<lparr>l_p1 = \<lparr>p_x = 0, p_y = 0\<rparr>, l_p2 = \<lparr>p_x = 1, p_y = 1\<rparr>\<rparr>" "\<lparr>p_x = 3, p_y = 1\<rparr>"]
    by simp
  moreover have "reflectPoint \<lparr>p_x = 3, p_y = 1\<rparr> \<lparr>l_p1 = \<lparr>p_x = 0, p_y = 0\<rparr>, l_p2 = \<lparr>p_x = 1, p_y = 1\<rparr>\<rparr>
       = \<lparr>p_x = 1, p_y = 3\<rparr>"
    by (simp add: reflectPoint_def ZERO_TOLERANCE_def Let_def)
  ultimately show ?thesis by simp
qed

lemma dist_pt_zero_iff: "dist_pt a b = 0 \<longleftrightarrow> p_x a = p_x b \<and> p_y a = p_y b"
proof -
  have "dist_pt a b = 0 \<longleftrightarrow> (p_x a - p_x b) * (p_x a - p_x b) + (p_y a - p_y b) * (p_y a - p_y b) = 0"
    by (simp add: dist_pt_def distSq_def)
  also have "\<dots> \<longleftrightarrow> p_x a - p_x b = 0 \<and> p_y a - p_y b = 0"
    by (rule sum_squares_eq_zero_iff)
  finally show ?thesis by simp
qed

lemma foot_eq_iff_cross:
  fixes A B C D :: real
  assumes n: "C * C + D * D \<noteq> 0"
  defines "t \<equiv> (A * C + B * D) / (C * C + D * D)"
  shows "(A = t * C \<and> B = t * D) \<longleftrightarrow> A * D = B * C"
proof
  assume e: "A = t * C \<and> B = t * D"
  have "A * D = (t * C) * D" using e by (simp only:)
  also have "\<dots> = (t * D) * C" by (simp only: mult_ac)
  also have "\<dots> = B * C" using e by (simp only:)
  finally show "A * D = B * C" .
next
  assume c: "A * D = B * C"
  have tn: "t * (C * C + D * D) = A * C + B * D"
    using n by (simp add: t_def)
  have "(A - t * C) * (C * C + D * D) = A * (C * C + D * D) - (t * (C * C + D * D)) * C"
    by (simp add: algebra_simps)
  also have "\<dots> = A * (C * C + D * D) - (A * C + B * D) * C"
    by (simp only: tn)
  also have "\<dots> = D * (A * D - B * C)" by (simp add: algebra_simps)
  also have "\<dots> = 0" using c by simp
  finally have a: "A = t * C" using n by auto
  have "(B - t * D) * (C * C + D * D) = B * (C * C + D * D) - (t * (C * C + D * D)) * D"
    by (simp add: algebra_simps)
  also have "\<dots> = B * (C * C + D * D) - (A * C + B * D) * D"
    by (simp only: tn)
  also have "\<dots> = C * (B * C - A * D)" by (simp add: algebra_simps)
  also have "\<dots> = 0" using c by simp
  finally have b: "B = t * D" using n by auto
  from a b show "A = t * C \<and> B = t * D" ..
qed

lemma distPointLine_zero_iff:
  assumes "ZERO_TOLERANCE \<le> distSq (l_p1 l) (l_p2 l)"
  shows "distPointLine p l = 0 \<longleftrightarrow> on_line p l"
proof -
  define C where "C = p_x (l_p2 l) - p_x (l_p1 l)"
  define D where "D = p_y (l_p2 l) - p_y (l_p1 l)"
  define A where "A = p_x p - p_x (l_p1 l)"
  define B where "B = p_y p - p_y (l_p1 l)"
  define t where "t = (A * C + B * D) / (C * C + D * D)"
  have n: "C * C + D * D \<noteq> 0"
    using assms ZERO_TOLERANCE_pos len_sq_distSq [of l] by (simp add: C_def D_def)
  have "distPointLine p l = 0 \<longleftrightarrow> p_x p = p_x (l_p1 l) + t * C \<and> p_y p = p_y (l_p1 l) + t * D"
    by (simp add: distPointLine_nondegenerate [OF assms] Let_def dist_pt_zero_iff
          t_def A_def B_def C_def D_def)
  also have "\<dots> \<longleftrightarrow> A = t * C \<and> B = t * D"
    by (auto simp: A_def B_def)
  also have "\<dots> \<longleftrightarrow> A * D = B * C"
    unfolding t_def using n by (rule foot_eq_iff_cross)
  also have "\<dots> \<longleftrightarrow> on_line p l"
    by (simp add: on_line_def A_def B_def C_def D_def)
  finally show ?thesis .
qed

lemma on_line_line_at: "on_line (line_at l t) l"
  by (simp add: on_line_def line_at_def)

lemma on_line_iff_line_at:
  assumes "ZERO_TOLERANCE \<le> distSq (l_p1 l) (l_p2 l)"
  shows "on_line p l \<longleftrightarrow> (\<exists>t. p = line_at l t)"
proof
  assume "\<exists>t. p = line_at l t"
  thus "on_line p l" by (auto simp: on_line_line_at)
next
  assume o: "on_line p l"
  define C where "C = p_x (l_p2 l) - p_x (l_p1 l)"
  define D where "D = p_y (l_p2 l) - p_y (l_p1 l)"
  define A where "A = p_x p - p_x (l_p1 l)"
  define B where "B = p_y p - p_y (l_p1 l)"
  define t where "t = (A * C + B * D) / (C * C + D * D)"
  have n: "C * C + D * D \<noteq> 0"
    using assms ZERO_TOLERANCE_pos len_sq_distSq [of l] by (simp add: C_def D_def)
  have "A * D = B * C" using o by (simp add: on_line_def A_def B_def C_def D_def)
  hence "A = t * C \<and> B = t * D"
    using foot_eq_iff_cross [OF n, of A B] by (simp add: t_def)
  hence "p = line_at l t"
    by (simp add: line_at_def A_def B_def C_def D_def)
  thus "\<exists>t. p = line_at l t" ..
qed

text \<open>
  Claim C4, as amended. For a line \<open>l\<close> whose squared length is at least
  \<open>ZERO_TOLERANCE\<close>, \<^verbatim>\<open>distPointLine(p, l)\<close> is exactly zero if and only if \<open>p\<close> lies on
  the infinite line through the two points of \<open>l\<close>, that is if \<open>p\<close> is
  \<open>p1 + t (p2 - p1)\<close> for some real \<open>t\<close>, inside or outside the segment; a point of
  the line passes the test ``at most \<open>ZERO_TOLERANCE\<close>''.
\<close>

theorem distPointLine_exact_zero_iff_on_line:
  assumes "ZERO_TOLERANCE \<le> distSq (l_p1 l) (l_p2 l)"
  shows "(distPointLine p l = 0 \<longleftrightarrow> on_line p l)
       \<and> (on_line p l \<longleftrightarrow> (\<exists>t. p = line_at l t))
       \<and> (on_line p l \<longrightarrow> distPointLine p l \<le> ZERO_TOLERANCE)
       \<and> (\<forall>t. distPointLine (line_at l t) l = 0)"
proof (intro conjI allI impI)
  show z: "distPointLine p l = 0 \<longleftrightarrow> on_line p l"
    by (rule distPointLine_zero_iff [OF assms])
  show "on_line p l \<longleftrightarrow> (\<exists>t. p = line_at l t)"
    by (rule on_line_iff_line_at [OF assms])
  show "distPointLine p l \<le> ZERO_TOLERANCE" if "on_line p l"
    using that z ZERO_TOLERANCE_pos by simp
  show "distPointLine (line_at l t) l = 0" for t
    using distPointLine_zero_iff [OF assms, of "line_at l t"] on_line_line_at [of l t] by simp
qed

theorem distPointLine_exact_zero_iff_on_line_witness:
  "distPointLine \<lparr>p_x = 2, p_y = 0\<rparr> \<lparr>l_p1 = \<lparr>p_x = 0, p_y = 0\<rparr>, l_p2 = \<lparr>p_x = 1, p_y = 0\<rparr>\<rparr> = 0
   \<and> on_line \<lparr>p_x = 2, p_y = 0\<rparr> \<lparr>l_p1 = \<lparr>p_x = 0, p_y = 0\<rparr>, l_p2 = \<lparr>p_x = 1, p_y = 0\<rparr>\<rparr>
   \<and> line_at \<lparr>l_p1 = \<lparr>p_x = 0, p_y = 0\<rparr>, l_p2 = \<lparr>p_x = 1, p_y = 0\<rparr>\<rparr> 2 = \<lparr>p_x = 2, p_y = 0\<rparr>
   \<and> distPointLine \<lparr>p_x = 2, p_y = 1\<rparr> \<lparr>l_p1 = \<lparr>p_x = 0, p_y = 0\<rparr>, l_p2 = \<lparr>p_x = 1, p_y = 0\<rparr>\<rparr> \<noteq> 0"
proof -
  let ?l = "\<lparr>l_p1 = \<lparr>p_x = 0, p_y = 0\<rparr>, l_p2 = \<lparr>p_x = 1, p_y = 0\<rparr>\<rparr>"
  have n: "ZERO_TOLERANCE \<le> distSq (l_p1 ?l) (l_p2 ?l)"
    by (simp add: ZERO_TOLERANCE_def distSq_def)
  have a: "on_line \<lparr>p_x = 2, p_y = 0\<rparr> ?l" and b: "\<not> on_line \<lparr>p_x = 2, p_y = 1\<rparr> ?l"
    and c: "line_at ?l 2 = \<lparr>p_x = 2, p_y = 0\<rparr>"
    by (simp_all add: on_line_def line_at_def)
  show ?thesis
    using distPointLine_exact_zero_iff_on_line [OF n, of "\<lparr>p_x = 2, p_y = 0\<rparr>"]
      distPointLine_exact_zero_iff_on_line [OF n, of "\<lparr>p_x = 2, p_y = 1\<rparr>"] a b c
    by simp
qed

lemma sqrt_square_nonneg: "0 \<le> a \<Longrightarrow> sqrt (a * a) = a"
  by simp

text \<open>
  Claim C4 as stated fails: the point \<open>(0, 5e-10)\<close> is off the line through \<open>(0, 0)\<close>
  and \<open>(1, 0)\<close>, and its distance to the line is within \<open>ZERO_TOLERANCE\<close>.
\<close>

theorem distPointLine_tolerance_counterexample:
  "ZERO_TOLERANCE \<le> distSq \<lparr>p_x = 0, p_y = 0\<rparr> \<lparr>p_x = 1, p_y = 0\<rparr>
   \<and> distPointLine \<lparr>p_x = 0, p_y = 1 / 2000000000\<rparr>
        \<lparr>l_p1 = \<lparr>p_x = 0, p_y = 0\<rparr>, l_p2 = \<lparr>p_x = 1, p_y = 0\<rparr>\<rparr> \<le> ZERO_TOLERANCE
   \<and> \<not> on_line \<lparr>p_x = 0, p_y = 1 / 2000000000\<rparr>
        \<lparr>l_p1 = \<lparr>p_x = 0, p_y = 0\<rparr>, l_p2 = \<lparr>p_x = 1, p_y = 0\<rparr>\<rparr>"
proof -
  have "sqrt ((1 / 2000000000) * (1 / 2000000000)) = 1 / 2000000000"
    by (rule sqrt_square_nonneg) simp
  thus ?thesis
    by (simp add: distPointLine_def dist_pt_def distSq_def on_line_def ZERO_TOLERANCE_def Let_def)
qed

lemma dist_pt_same_y: "p_y a = p_y b \<Longrightarrow> dist_pt a b = \<bar>p_x a - p_x b\<bar>"
  by (simp add: dist_pt_def distSq_def)

lemma dist_pt_same_x: "p_x a = p_x b \<Longrightarrow> dist_pt a b = \<bar>p_y a - p_y b\<bar>"
  by (simp add: dist_pt_def distSq_def)

text \<open>
  Claim C1. For every point \<open>p\<close> and geometry \<open>g\<close>, \<^verbatim>\<open>isSafePoint(p, g)\<close> is true if and
  only if the distance from \<open>p\<close> to every stored point, the distance from \<open>p\<close> to the
  infinite line of every stored line, and the distance from \<open>p\<close> to the boundary of
  every stored circle is at most \<open>ZERO_TOLERANCE\<close> or at least \<open>DANGER_EPS\<close>.
\<close>

theorem isSafePoint_iff_clear:
  "isSafePoint p g \<longleftrightarrow>
     (\<forall>pt \<in> set (points g). dist_pt p pt \<le> ZERO_TOLERANCE \<or> dist_pt p pt \<ge> DANGER_EPS)
   \<and> (\<forall>l \<in> set (lines g). distPointLine p l \<le> ZERO_TOLERANCE \<or> distPointLine p l \<ge> DANGER_EPS)
   \<and> (\<forall>c \<in> set (circles g). \<bar>dist_pt p (c_c c) - c_r c\<bar> \<le> ZERO_TOLERANCE
                              \<or> \<bar>dist_pt p (c_c c) - c_r c\<bar> \<ge> DANGER_EPS)"
  by (auto simp: isSafePoint_def isSafePoint_points_iff isSafePoint_lines_iff
        isSafePoint_circles_iff clear_of_def)

theorem isSafePoint_iff_clear_witness:
  "isSafePoint \<lparr>p_x = 0, p_y = 0\<rparr> example_sheet
   \<and> \<not> isSafePoint \<lparr>p_x = 0, p_y = 1 / 50\<rparr> example_sheet"
  using isSafePoint_iff_clear [of "\<lparr>p_x = 0, p_y = 0\<rparr>" example_sheet]
    isSafePoint_iff_clear [of "\<lparr>p_x = 0, p_y = 1 / 50\<rparr>" example_sheet]
  by (simp add: example_sheet_def distPointLine_def dist_pt_same_y dist_pt_same_x
        ZERO_TOLERANCE_def DANGER_EPS_def Let_def)

text \<open>
  Claim C2. For every line \<open>l\<close> and geometry \<open>g\<close>, \<^verbatim>\<open>isSafeFold(l, g)\<close> is true if and
  only if the distance of every stored point to \<open>l\<close> is at most \<open>ZERO_TOLERANCE\<close> or at
  least \<open>DANGER_EPS\<close>, and for every stored circle both the distance \<open>d\<close> of its centre
  to \<open>l\<close> and the tangency gap \<open>\<bar>d - r\<bar>\<close> are; the stored lines do not occur in the
  condition.
\<close>

theorem isSafeFold_iff_clear:
  "isSafeFold l g \<longleftrightarrow>
     (\<forall>pt \<in> set (points g). distPointLine pt l \<le> ZERO_TOLERANCE \<or> distPointLine pt l \<ge> DANGER_EPS)
   \<and> (\<forall>c \<in> set (circles g).
         (distPointLine (c_c c) l \<le> ZERO_TOLERANCE \<or> distPointLine (c_c c) l \<ge> DANGER_EPS)
       \<and> (\<bar>distPointLine (c_c c) l - c_r c\<bar> \<le> ZERO_TOLERANCE
            \<or> \<bar>distPointLine (c_c c) l - c_r c\<bar> \<ge> DANGER_EPS))"
  by (auto simp: isSafeFold_def isSafeFold_points_iff isSafeFold_circles_iff clear_of_def)

theorem isSafeFold_iff_clear_witness:
  "isSafeFold \<lparr>l_p1 = \<lparr>p_x = 3, p_y = 0\<rparr>, l_p2 = \<lparr>p_x = 3, p_y = 1\<rparr>\<rparr> example_sheet
   \<and> \<not> isSafeFold \<lparr>l_p1 = \<lparr>p_x = 51 / 50, p_y = 0\<rparr>, l_p2 = \<lparr>p_x = 51 / 50, p_y = 1\<rparr>\<rparr>
         example_sheet"
  using isSafeFold_iff_clear [of "\<lparr>l_p1 = \<lparr>p_x = 3, p_y = 0\<rparr>, l_p2 = \<lparr>p_x = 3, p_y = 1\<rparr>\<rparr>" example_sheet]
    isSafeFold_iff_clear [of "\<lparr>l_p1 = \<lparr>p_x = 51 / 50, p_y = 0\<rparr>, l_p2 = \<lparr>p_x = 51 / 50, p_y = 1\<rparr>\<rparr>"
      example_sheet]
  by (simp add: example_sheet_def distPointLine_def dist_pt_same_y dist_pt_same_x
        ZERO_TOLERANCE_def DANGER_EPS_def Let_def)

text \<open>
  Claim C7, as amended. On the sheet of a fresh circle of centre \<open>(x, y)\<close> and radius
  \<open>r\<close> (its centre point and the circle), a fold line at distance 0 from the centre is
  accepted by \<^verbatim>\<open>isSafeFold\<close> exactly when \<open>\<bar>r\<bar>\<close> is at most \<open>ZERO_TOLERANCE\<close> or at least
  \<open>DANGER_EPS\<close>, so for every radius from 1 to 5. In a geometry with more features, a
  circle whose centre is at distance 0 from the line leaves the verdict on the rest
  of the geometry as it is, under the same condition on its radius. A fold line whose
  distance to the centre of a circle of the geometry lies strictly between
  \<open>ZERO_TOLERANCE\<close> and \<open>DANGER_EPS\<close>, 0.02 for one, is rejected whatever else the
  geometry holds.
\<close>

theorem isSafeFold_circle_center:
  "(distPointLine \<lparr>p_x = x, p_y = y\<rparr> l = 0 \<longrightarrow>
      (isSafeFold l (circleSheet x y r) \<longleftrightarrow> \<bar>r\<bar> \<le> ZERO_TOLERANCE \<or> DANGER_EPS \<le> \<bar>r\<bar>))
   \<and> (distPointLine \<lparr>p_x = x, p_y = y\<rparr> l = 0 \<and> 1 \<le> r \<and> r \<le> 5 \<longrightarrow>
      isSafeFold l (circleSheet x y r))
   \<and> (\<forall>g :: SheetGeometry. distPointLine (c_c c) l = 0 \<longrightarrow>
      (isSafeFold l (g\<lparr>circles := c # circles g\<rparr>) \<longleftrightarrow>
         isSafeFold l g \<and> (\<bar>c_r c\<bar> \<le> ZERO_TOLERANCE \<or> DANGER_EPS \<le> \<bar>c_r c\<bar>)))
   \<and> (\<forall>(g :: SheetGeometry) d. d \<in> set (circles g)
        \<and> ZERO_TOLERANCE < distPointLine (c_c d) l \<and> distPointLine (c_c d) l < DANGER_EPS \<longrightarrow>
      \<not> isSafeFold l g)
   \<and> (\<forall>(g :: SheetGeometry) d. d \<in> set (circles g) \<and> distPointLine (c_c d) l = 2 / 100 \<longrightarrow>
      \<not> isSafeFold l g)"
proof (intro conjI allI impI)
  assume z: "distPointLine \<lparr>p_x = x, p_y = y\<rparr> l = 0"
  thus "isSafeFold l (circleSheet x y r) \<longleftrightarrow> \<bar>r\<bar> \<le> ZERO_TOLERANCE \<or> DANGER_EPS \<le> \<bar>r\<bar>"
    by (auto simp: isSafeFold_def circleSheet_def in_danger_band_def ZERO_TOLERANCE_def
        DANGER_EPS_def)
next
  assume "distPointLine \<lparr>p_x = x, p_y = y\<rparr> l = 0 \<and> 1 \<le> r \<and> r \<le> 5"
  thus "isSafeFold l (circleSheet x y r)"
    by (simp add: isSafeFold_def circleSheet_def in_danger_band_def ZERO_TOLERANCE_def
        DANGER_EPS_def)
next
  fix g :: SheetGeometry
  assume "distPointLine (c_c c) l = 0"
  thus "isSafeFold l (g\<lparr>circles := c # circles g\<rparr>) \<longleftrightarrow>
         isSafeFold l g \<and> (\<bar>c_r c\<bar> \<le> ZERO_TOLERANCE \<or> DANGER_EPS \<le> \<bar>c_r c\<bar>)"
    by (auto simp: isSafeFold_def in_danger_band_def ZERO_TOLERANCE_def DANGER_EPS_def)
next
  fix g :: SheetGeometry and d
  assume "d \<in> set (circles g)
        \<and> ZERO_TOLERANCE < distPointLine (c_c d) l \<and> distPointLine (c_c d) l < DANGER_EPS"
  hence "d \<in> set (circles g)" and "\<not> clear_of (distPointLine (c_c d) l)"
    by (simp_all add: clear_of_def)
  thus "\<not> isSafeFold l g"
    by (auto simp: isSafeFold_def isSafeFold_circles_iff)
next
  fix g :: SheetGeometry and d
  assume "d \<in> set (circles g) \<and> distPointLine (c_c d) l = 2 / 100"
  hence "d \<in> set (circles g)" and "\<not> clear_of (distPointLine (c_c d) l)"
    by (simp_all add: clear_of_def ZERO_TOLERANCE_def DANGER_EPS_def)
  thus "\<not> isSafeFold l g"
    by (auto simp: isSafeFold_def isSafeFold_circles_iff)
qed

theorem isSafeFold_circle_center_witness:
  "isSafeFold \<lparr>l_p1 = \<lparr>p_x = - 1, p_y = 0\<rparr>, l_p2 = \<lparr>p_x = 1, p_y = 0\<rparr>\<rparr> (circleSheet 0 0 1)
   \<and> \<not> isSafeFold \<lparr>l_p1 = \<lparr>p_x = - 1, p_y = 0\<rparr>, l_p2 = \<lparr>p_x = 1, p_y = 0\<rparr>\<rparr> (circleSheet 0 0 (2 / 100))
   \<and> \<not> isSafeFold \<lparr>l_p1 = \<lparr>p_x = - 1, p_y = 2 / 100\<rparr>, l_p2 = \<lparr>p_x = 1, p_y = 2 / 100\<rparr>\<rparr> (circleSheet 0 0 1)
   \<and> \<not> isSafeFold \<lparr>l_p1 = \<lparr>p_x = - 1, p_y = 1 / 100\<rparr>, l_p2 = \<lparr>p_x = 1, p_y = 1 / 100\<rparr>\<rparr> (circleSheet 0 0 1)"
proof -
  let ?L0 = "\<lparr>l_p1 = \<lparr>p_x = - 1, p_y = 0\<rparr>, l_p2 = \<lparr>p_x = 1, p_y = 0\<rparr>\<rparr>"
  let ?L2 = "\<lparr>l_p1 = \<lparr>p_x = - 1, p_y = 2 / 100\<rparr>, l_p2 = \<lparr>p_x = 1, p_y = 2 / 100\<rparr>\<rparr>"
  let ?L1 = "\<lparr>l_p1 = \<lparr>p_x = - 1, p_y = 1 / 100\<rparr>, l_p2 = \<lparr>p_x = 1, p_y = 1 / 100\<rparr>\<rparr>"
  let ?c = "\<lparr>c_c = \<lparr>p_x = 0, p_y = 0\<rparr>, c_r = 1\<rparr>"
  have a: "distPointLine \<lparr>p_x = 0, p_y = 0\<rparr> ?L0 = 0"
    by (simp add: distPointLine_def dist_pt_same_x dist_pt_same_y ZERO_TOLERANCE_def Let_def)
  have b: "distPointLine (c_c ?c) ?L2 = 2 / 100"
    by (simp add: distPointLine_def dist_pt_same_x dist_pt_same_y ZERO_TOLERANCE_def Let_def)
  have b1: "ZERO_TOLERANCE < distPointLine (c_c ?c) ?L1 \<and> distPointLine (c_c ?c) ?L1 < DANGER_EPS"
    by (simp add: distPointLine_def dist_pt_same_x dist_pt_same_y ZERO_TOLERANCE_def
        DANGER_EPS_def Let_def)
  have c: "?c \<in> set (circles (circleSheet 0 0 1))"
    by (simp add: circleSheet_def)
  note t0 = isSafeFold_circle_center [where x = 0 and y = 0 and l = ?L0 and r = 1]
  note t0' = isSafeFold_circle_center [where x = 0 and y = 0 and l = ?L0 and r = "2 / 100"]
  note t2 = isSafeFold_circle_center [where l = ?L2]
  note t1 = isSafeFold_circle_center [where l = ?L1]
  have "isSafeFold ?L0 (circleSheet 0 0 1)"
    using t0 [THEN conjunct2, THEN conjunct1] a by simp
  moreover have "\<not> isSafeFold ?L0 (circleSheet 0 0 (2 / 100))"
    using t0' [THEN conjunct1] a by (simp add: ZERO_TOLERANCE_def DANGER_EPS_def)
  moreover have "\<not> isSafeFold ?L2 (circleSheet 0 0 1)"
    using t2 [THEN conjunct2, THEN conjunct2, THEN conjunct2, THEN conjunct2, rule_format,
        where g = "circleSheet 0 0 1" and d = ?c] b c by simp
  moreover have "\<not> isSafeFold ?L1 (circleSheet 0 0 1)"
    using t1 [THEN conjunct2, THEN conjunct2, THEN conjunct2, THEN conjunct1, rule_format,
        where g = "circleSheet 0 0 1" and d = ?c] b1 c by simp
  ultimately show ?thesis by simp
qed

section \<open>Properties of the generator\<close>

subsection \<open>The retry loop\<close>

lemma retry_loop_Accepted:
  "retry_loop body t s = (Accepted r, s') \<Longrightarrow> \<exists>s0. body s0 = (Accepted r, s')"
proof (induction body t s rule: retry_loop.induct)
  case (1 body t s)
  show ?case
  proof (cases "t < MAX_TRIES")
    case False
    with "1.prems" show ?thesis by (simp add: retry_loop.simps)
  next
    case True
    obtain a s1 where b: "body s = (a, s1)" by (cases "body s")
    show ?thesis
    proof (cases a)
      case (Accepted r')
      with True b "1.prems" show ?thesis
        by (auto simp: retry_loop.simps [of body t s])
    next
      case Rejected
      with True b "1.prems" have "retry_loop body (t + 1) s1 = (Accepted r, s')"
        by (simp add: retry_loop.simps [of body t s])
      with "1.IH" [OF True b [symmetric]] Rejected show ?thesis by simp
    next
      case Undefined
      with True b "1.prems" show ?thesis
        by (simp add: retry_loop.simps [of body t s])
    qed
  qed
qed

lemma state_after_Suc: "state_after body (Suc j) s = state_after body j (snd (body s))"
  by (simp only: state_after_def funpow_Suc_right comp_apply)

lemma state_after_0: "state_after body 0 s = s"
  by (simp add: state_after_def)

lemma retry_loop_Rejected_iff:
  "retry_loop body t s = (Rejected, s') \<longleftrightarrow>
     (\<forall>j < MAX_TRIES - t. fst (body (state_after body j s)) = Rejected)
   \<and> s' = state_after body (MAX_TRIES - t) s"
proof (induction body t s rule: retry_loop.induct)
  case (1 body t s)
  show ?case
  proof (cases "t < MAX_TRIES")
    case False
    thus ?thesis by (auto simp: retry_loop.simps [of body t s] state_after_0)
  next
    case True
    then obtain m where m: "MAX_TRIES - t = Suc m" and m': "MAX_TRIES - Suc t = m"
      by (cases "MAX_TRIES - t") auto
    have all_Suc: "(\<forall>j < Suc m. P j) \<longleftrightarrow> P 0 \<and> (\<forall>j < m. P (Suc j))" for P
      by (metis less_Suc_eq_0_disj)
    obtain a s1 where b: "body s = (a, s1)" by (cases "body s")
    show ?thesis
    proof (cases a)
      case (Accepted r')
      with True b show ?thesis
        by (auto simp: retry_loop.simps [of body t s] m state_after_0)
    next
      case Rejected
      have "retry_loop body t s = retry_loop body (t + 1) s1"
        using True b Rejected by (simp add: retry_loop.simps [of body t s])
      also have "\<dots> = (Rejected, s') \<longleftrightarrow>
          (\<forall>j < m. fst (body (state_after body j s1)) = Rejected) \<and> s' = state_after body m s1"
        using "1.IH" [OF True b [symmetric]] Rejected by (simp add: m')
      finally show ?thesis
        using b Rejected by (simp add: m all_Suc state_after_Suc state_after_0)
    next
      case Undefined
      with True b show ?thesis
        by (auto simp: retry_loop.simps [of body t s] m state_after_0)
    qed
  qed
qed

lemma retry_loop_Rejected_const:
  "body s = (Rejected, s) \<Longrightarrow> retry_loop body t s = (Rejected, s)"
proof -
  assume b: "body s = (Rejected, s)"
  have "state_after body j s = s" for j
    by (induction j) (simp_all add: state_after_0 state_after_Suc b)
  thus ?thesis by (simp add: retry_loop_Rejected_iff b)
qed


subsection \<open>What an accepted attempt commits\<close>

lemma sheet_try_Accepted:
  assumes "sheet_try ops sheets i s = (Accepted (g, out), s')"
  shows "(\<exists>x1 y1 sa sb.
            out = OutP x1 y1 (x1 + fst (size_dist ops sa)) (y1 + fst (size_dist ops sb))
          \<and> g = rectangleSheet x1 y1 (x1 + fst (size_dist ops sa)) (y1 + fst (size_dist ops sb)))
       \<or> (\<exists>x y sa. out = OutK x y (fst (size_dist ops sa))
          \<and> g = circleSheet x y (fst (size_dist ops sa)))
       \<or> (\<exists>k foldLine.
            out = OutZ k (p_x (l_p1 foldLine)) (p_y (l_p1 foldLine))
                         (p_x (l_p2 foldLine)) (p_y (l_p2 foldLine))
          \<and> 0 \<le> k \<and> nat k < length sheets
          \<and> g = foldSheet (sheets ! nat k) foldLine
          \<and> ZERO_TOLERANCE \<le> distSq (l_p1 foldLine) (l_p2 foldLine)
          \<and> isSafeFold foldLine (sheets ! nat k))"
  using assms unfolding sheet_try_def Let_def split_beta
  by (auto split: if_splits option.splits)

lemma Point_of_coords [simp]: "\<lparr>p_x = p_x p, p_y = p_y p\<rparr> = p"
  by (cases p) simp

lemma Line_eta [simp]: "\<lparr>l_p1 = l_p1 L, l_p2 = l_p2 L\<rparr> = L"
  by (cases L) simp

lemma Line_of_coords [simp]:
  "\<lparr>l_p1 = \<lparr>p_x = p_x (l_p1 L), p_y = p_y (l_p1 L)\<rparr>,
    l_p2 = \<lparr>p_x = p_x (l_p2 L), p_y = p_y (l_p2 L)\<rparr>\<rparr> = L"
  by (cases L) simp

lemma sheet_try_OutZ:
  assumes "sheet_try ops sheets i s = (Accepted (g, OutZ k x1 y1 x2 y2), s')"
  shows "0 \<le> k \<and> nat k < length sheets
       \<and> g = foldSheet (sheets ! nat k) \<lparr>l_p1 = \<lparr>p_x = x1, p_y = y1\<rparr>, l_p2 = \<lparr>p_x = x2, p_y = y2\<rparr>\<rparr>
       \<and> ZERO_TOLERANCE \<le> distSq \<lparr>p_x = x1, p_y = y1\<rparr> \<lparr>p_x = x2, p_y = y2\<rparr>
       \<and> isSafeFold \<lparr>l_p1 = \<lparr>p_x = x1, p_y = y1\<rparr>, l_p2 = \<lparr>p_x = x2, p_y = y2\<rparr>\<rparr> (sheets ! nat k)"
  using sheet_try_Accepted [OF assms] by auto

subsection \<open>Invariants of the loop of the sheets\<close>

lemma gen_sheets_invariant_any:
  assumes "gen_sheets ops n i sheets fl s = (a, file', s')"
    and "Inv i sheets fl"
    and step: "\<And>i sheets fl s g out s1.
        Inv i sheets fl \<Longrightarrow> i \<le> n \<Longrightarrow> sheet_try ops sheets i s = (Accepted (g, out), s1)
          \<Longrightarrow> Inv (i + 1) (sheets @ [g]) (fl @ [out])"
  shows "\<exists>i' sheets'. i \<le> i' \<and> Inv i' sheets' file'
           \<and> (\<forall>sh. a = Accepted sh \<longrightarrow> sh = sheets' \<and> n < i')"
  using assms
proof (induction ops n i sheets fl s rule: gen_sheets.induct)
  case (1 ops n i sheets fl s)
  show ?case
  proof (cases "i \<le> n")
    case False
    with "1.prems"(1) have "a = Accepted sheets" and "file' = fl"
      by (simp_all add: gen_sheets.simps [of ops n i sheets fl s])
    with False "1.prems"(2) show ?thesis by auto
  next
    case True
    obtain b s1 where r: "retry_loop (sheet_try ops sheets i) 0 s = (b, s1)"
      by (cases "retry_loop (sheet_try ops sheets i) 0 s")
    show ?thesis
    proof (cases b)
      case (Accepted go)
      obtain g out where go: "go = (g, out)" by (cases go)
      from r Accepted go obtain s0 where t: "sheet_try ops sheets i s0 = (Accepted (g, out), s1)"
        using retry_loop_Accepted by fastforce
      have inv: "Inv (i + 1) (sheets @ [g]) (fl @ [out])"
        using "1.prems"(3) [OF "1.prems"(2) True t] .
      have "gen_sheets ops n (i + 1) (sheets @ [g]) (fl @ [out]) s1 = (a, file', s')"
        using "1.prems"(1) True r Accepted go
        by (simp add: gen_sheets.simps [of ops n i sheets fl s])
      hence "\<exists>i' sheets'. i + 1 \<le> i' \<and> Inv i' sheets' file'
           \<and> (\<forall>sh. a = Accepted sh \<longrightarrow> sh = sheets' \<and> n < i')"
        by (rule "1.IH" [OF True r [symmetric] Accepted go [symmetric] _ inv])
          (rule "1.prems"(3); assumption)
      then obtain i' sheets' where "i + 1 \<le> i'"
        and i': "Inv i' sheets' file'" "\<forall>sh. a = Accepted sh \<longrightarrow> sh = sheets' \<and> n < i'"
        by blast
      hence "i \<le> i'" by simp
      with i' show ?thesis by blast
    next
      case Rejected
      with "1.prems"(1) True r have "a = Rejected" and "file' = fl"
        by (simp_all add: gen_sheets.simps [of ops n i sheets fl s])
      with "1.prems"(2) show ?thesis by auto
    next
      case Undefined
      with "1.prems"(1) True r have "a = Undefined" and "file' = fl"
        by (simp_all add: gen_sheets.simps [of ops n i sheets fl s])
      with "1.prems"(2) show ?thesis by auto
    qed
  qed
qed

lemma gen_sheets_invariant:
  assumes "gen_sheets ops n i sheets fl s = (Accepted sheets', file', s')"
    and "Inv i sheets fl"
    and step: "\<And>i sheets fl s g out s1.
        Inv i sheets fl \<Longrightarrow> i \<le> n \<Longrightarrow> sheet_try ops sheets i s = (Accepted (g, out), s1)
          \<Longrightarrow> Inv (i + 1) (sheets @ [g]) (fl @ [out])"
  shows "\<exists>i'. i \<le> i' \<and> n < i' \<and> Inv i' sheets' file'"
proof -
  have "\<exists>i' sh'. i \<le> i' \<and> Inv i' sh' file'
           \<and> (\<forall>sh. Accepted sheets' = Accepted sh \<longrightarrow> sh = sh' \<and> n < i')"
    by (rule gen_sheets_invariant_any [where Inv = Inv, OF assms(1,2)]) (rule step; assumption)
  thus ?thesis by auto
qed

lemma foldSheet_sizes:
  "length (points (foldSheet b l)) = 2 * length (points b)
   \<and> length (lines (foldSheet b l)) = 2 * length (lines b) + 1
   \<and> length (circles (foldSheet b l)) = 2 * length (circles b)"
  by (simp add: foldSheet_def)

lemma gen_sheets_fold_records:
  assumes "gen_sheets ops n 1 [emptySheet] [OutHeader n q] s = (Accepted sheets, fl, s')"
  shows "length sheets = length fl
       \<and> (\<forall>j k x1 y1 x2 y2. j < length fl \<longrightarrow> fl ! j = OutZ k x1 y1 x2 y2 \<longrightarrow>
             0 \<le> k \<and> nat k < j
           \<and> sheets ! j = foldSheet (sheets ! nat k)
                 \<lparr>l_p1 = \<lparr>p_x = x1, p_y = y1\<rparr>, l_p2 = \<lparr>p_x = x2, p_y = y2\<rparr>\<rparr>)"
proof -
  let ?Inv = "\<lambda>(i::int) sheets fl. length sheets = length fl
       \<and> (\<forall>j k x1 y1 x2 y2. j < length fl \<longrightarrow> fl ! j = OutZ k x1 y1 x2 y2 \<longrightarrow>
             0 \<le> k \<and> nat k < j
           \<and> sheets ! j = foldSheet (sheets ! nat k)
                 \<lparr>l_p1 = \<lparr>p_x = x1, p_y = y1\<rparr>, l_p2 = \<lparr>p_x = x2, p_y = y2\<rparr>\<rparr>)"
  have base: "?Inv 1 [emptySheet] [OutHeader n q]" by simp
  have step: "?Inv (i + 1) (sheets @ [g]) (fl @ [out])"
    if inv: "?Inv i sheets fl" and "i \<le> n"
      and t: "sheet_try ops sheets i s = (Accepted (g, out), s1)"
    for i sheets fl s g out s1
  proof (intro conjI allI impI)
    show "length (sheets @ [g]) = length (fl @ [out])" using inv by simp
  next
    fix j k x1 y1 x2 y2
    assume j: "j < length (fl @ [out])" and z: "(fl @ [out]) ! j = OutZ k x1 y1 x2 y2"
    let ?L = "\<lparr>l_p1 = \<lparr>p_x = x1, p_y = y1\<rparr>, l_p2 = \<lparr>p_x = x2, p_y = y2\<rparr>\<rparr>"
    have len: "length sheets = length fl" using inv by simp
    have "0 \<le> k \<and> nat k < j \<and> (sheets @ [g]) ! j = foldSheet ((sheets @ [g]) ! nat k) ?L"
    proof (cases "j < length fl")
      case True
      with z have "fl ! j = OutZ k x1 y1 x2 y2" by (simp add: nth_append)
      with inv True have "0 \<le> k \<and> nat k < j \<and> sheets ! j = foldSheet (sheets ! nat k) ?L"
        by blast
      with True len show ?thesis by (simp add: nth_append)
    next
      case False
      with j have jl: "j = length fl" by simp
      with z have "out = OutZ k x1 y1 x2 y2" by simp
      with t have "sheet_try ops sheets i s = (Accepted (g, OutZ k x1 y1 x2 y2), s1)" by simp
      from sheet_try_OutZ [OF this]
      have "0 \<le> k \<and> nat k < length sheets \<and> g = foldSheet (sheets ! nat k) ?L" by simp
      with jl len show ?thesis by (simp add: nth_append)
    qed
    thus "0 \<le> k" and "nat k < j"
      and "(sheets @ [g]) ! j = foldSheet ((sheets @ [g]) ! nat k) ?L"
      by simp_all
  qed
  have "\<exists>i'. 1 \<le> i' \<and> n < i' \<and> ?Inv i' sheets fl"
    by (rule gen_sheets_invariant [where Inv = ?Inv, OF assms base]) (rule step; assumption)
  thus ?thesis by blast
qed

text \<open>
  Claim C5. An accepted attempt that writes \<^verbatim>\<open>Z k x1 y1 x2 y2\<close> pushes the geometry of
  sheet \<open>k\<close>, followed by the mirror image of every point, line and circle of sheet
  \<open>k\<close> across the fold line, with the fold line itself as the last line. When the
  loop of the sheets has run to its end and the record of sheet \<open>i\<close> is a fold of
  sheet \<open>k\<close>, then \<open>k < i\<close> and \<^verbatim>\<open>sheets[i]\<close> has twice the points of \<^verbatim>\<open>sheets[k]\<close>,
  twice its lines plus one, and twice its circles.
\<close>

theorem fold_commit_geometry:
  "(sheet_try ops sheets0 i0 s0 = (Accepted (g, OutZ k0 a1 b1 a2 b2), s1) \<longrightarrow>
      0 \<le> k0 \<and> nat k0 < length sheets0
    \<and> points g = points (sheets0 ! nat k0)
        @ map (\<lambda>p. reflectPoint p \<lparr>l_p1 = \<lparr>p_x = a1, p_y = b1\<rparr>, l_p2 = \<lparr>p_x = a2, p_y = b2\<rparr>\<rparr>)
            (points (sheets0 ! nat k0))
    \<and> lines g = lines (sheets0 ! nat k0)
        @ map (\<lambda>l. \<lparr>l_p1 = reflectPoint (l_p1 l) \<lparr>l_p1 = \<lparr>p_x = a1, p_y = b1\<rparr>, l_p2 = \<lparr>p_x = a2, p_y = b2\<rparr>\<rparr>,
                     l_p2 = reflectPoint (l_p2 l) \<lparr>l_p1 = \<lparr>p_x = a1, p_y = b1\<rparr>, l_p2 = \<lparr>p_x = a2, p_y = b2\<rparr>\<rparr>\<rparr>)
            (lines (sheets0 ! nat k0))
        @ [\<lparr>l_p1 = \<lparr>p_x = a1, p_y = b1\<rparr>, l_p2 = \<lparr>p_x = a2, p_y = b2\<rparr>\<rparr>]
    \<and> circles g = circles (sheets0 ! nat k0)
        @ map (\<lambda>c. \<lparr>c_c = reflectPoint (c_c c) \<lparr>l_p1 = \<lparr>p_x = a1, p_y = b1\<rparr>, l_p2 = \<lparr>p_x = a2, p_y = b2\<rparr>\<rparr>,
                     c_r = c_r c\<rparr>)
            (circles (sheets0 ! nat k0)))
   \<and> (gen_sheets ops n 1 [emptySheet] [OutHeader n q] s = (Accepted sheets, fl, s')
        \<and> 1 \<le> i \<and> i \<le> n \<and> fl ! nat i = OutZ k x1 y1 x2 y2 \<longrightarrow>
      0 \<le> k \<and> k < i
    \<and> sheets ! nat i = foldSheet (sheets ! nat k)
         \<lparr>l_p1 = \<lparr>p_x = x1, p_y = y1\<rparr>, l_p2 = \<lparr>p_x = x2, p_y = y2\<rparr>\<rparr>
    \<and> length (points (sheets ! nat i)) = 2 * length (points (sheets ! nat k))
    \<and> length (lines (sheets ! nat i)) = 2 * length (lines (sheets ! nat k)) + 1
    \<and> length (circles (sheets ! nat i)) = 2 * length (circles (sheets ! nat k)))"
proof (intro conjI impI)
  assume "sheet_try ops sheets0 i0 s0 = (Accepted (g, OutZ k0 a1 b1 a2 b2), s1)"
  note f = sheet_try_OutZ [OF this]
  show "0 \<le> k0" and "nat k0 < length sheets0" using f by simp_all
  from f have g: "g = foldSheet (sheets0 ! nat k0)
      \<lparr>l_p1 = \<lparr>p_x = a1, p_y = b1\<rparr>, l_p2 = \<lparr>p_x = a2, p_y = b2\<rparr>\<rparr>" by simp
  show "points g = points (sheets0 ! nat k0)
        @ map (\<lambda>p. reflectPoint p \<lparr>l_p1 = \<lparr>p_x = a1, p_y = b1\<rparr>, l_p2 = \<lparr>p_x = a2, p_y = b2\<rparr>\<rparr>)
            (points (sheets0 ! nat k0))"
    by (simp add: g foldSheet_def)
  show "lines g = lines (sheets0 ! nat k0)
        @ map (\<lambda>l. \<lparr>l_p1 = reflectPoint (l_p1 l) \<lparr>l_p1 = \<lparr>p_x = a1, p_y = b1\<rparr>, l_p2 = \<lparr>p_x = a2, p_y = b2\<rparr>\<rparr>,
                     l_p2 = reflectPoint (l_p2 l) \<lparr>l_p1 = \<lparr>p_x = a1, p_y = b1\<rparr>, l_p2 = \<lparr>p_x = a2, p_y = b2\<rparr>\<rparr>\<rparr>)
            (lines (sheets0 ! nat k0))
        @ [\<lparr>l_p1 = \<lparr>p_x = a1, p_y = b1\<rparr>, l_p2 = \<lparr>p_x = a2, p_y = b2\<rparr>\<rparr>]"
    by (simp add: g foldSheet_def)
  show "circles g = circles (sheets0 ! nat k0)
        @ map (\<lambda>c. \<lparr>c_c = reflectPoint (c_c c) \<lparr>l_p1 = \<lparr>p_x = a1, p_y = b1\<rparr>, l_p2 = \<lparr>p_x = a2, p_y = b2\<rparr>\<rparr>,
                     c_r = c_r c\<rparr>)
            (circles (sheets0 ! nat k0))"
    by (simp add: g foldSheet_def)
next
  assume a: "gen_sheets ops n 1 [emptySheet] [OutHeader n q] s = (Accepted sheets, fl, s')
        \<and> 1 \<le> i \<and> i \<le> n \<and> fl ! nat i = OutZ k x1 y1 x2 y2"
  hence run: "gen_sheets ops n 1 [emptySheet] [OutHeader n q] s = (Accepted sheets, fl, s')"
    and i: "1 \<le> i" "i \<le> n" and z: "fl ! nat i = OutZ k x1 y1 x2 y2" by simp_all
  have "\<exists>i'. 1 \<le> i' \<and> n < i' \<and> 0 \<le> i' \<and> length fl = nat i'"
    by (rule gen_sheets_invariant [where Inv = "\<lambda>i sheets fl. 0 \<le> i \<and> length fl = nat i", OF run])
      (auto simp: nat_add_distrib)
  hence "nat i < length fl" using i by auto
  with gen_sheets_fold_records [OF run] z
  have r: "0 \<le> k \<and> nat k < nat i \<and> sheets ! nat i = foldSheet (sheets ! nat k)
         \<lparr>l_p1 = \<lparr>p_x = x1, p_y = y1\<rparr>, l_p2 = \<lparr>p_x = x2, p_y = y2\<rparr>\<rparr>"
    by blast
  show "0 \<le> k" and "k < i" using r by simp_all
  show "sheets ! nat i = foldSheet (sheets ! nat k)
         \<lparr>l_p1 = \<lparr>p_x = x1, p_y = y1\<rparr>, l_p2 = \<lparr>p_x = x2, p_y = y2\<rparr>\<rparr>" using r by simp
  thus "length (points (sheets ! nat i)) = 2 * length (points (sheets ! nat k))"
    and "length (lines (sheets ! nat i)) = 2 * length (lines (sheets ! nat k)) + 1"
    and "length (circles (sheets ! nat i)) = 2 * length (circles (sheets ! nat k))"
    by (simp_all add: foldSheet_sizes)
qed

subsection \<open>A run with a rectangle and a fold\<close>

lemmas draw_defs = coord_dist_def size_dist_def type_dist_def random_point_def random_line_def
  pick_def

lemma tape_first_sheet:
  "sheet_try tape_ops [emptySheet] 1 [0, 0, 0, 2, 2, 2, 1, 0, 1, - 5, 1, 5]
     = (Accepted (rectangleSheet 0 0 2 2, OutP 0 0 2 2), [2, 1, 0, 1, - 5, 1, 5])"
  by (simp add: sheet_try_def tape_ops_def draw_defs Let_def)

lemma tape_fold_safe:
  "isSafeFold \<lparr>l_p1 = \<lparr>p_x = 1, p_y = - 5\<rparr>, l_p2 = \<lparr>p_x = 1, p_y = 5\<rparr>\<rparr> (rectangleSheet 0 0 2 2)"
  by (simp add: isSafeFold_def rectangleSheet_def distPointLine_def dist_pt_same_y
      in_danger_band_def ZERO_TOLERANCE_def DANGER_EPS_def Let_def)

lemma tape_second_sheet:
  "sheet_try tape_ops [emptySheet, rectangleSheet 0 0 2 2] 2 [2, 1, 0, 1, - 5, 1, 5]
     = (Accepted (foldSheet (rectangleSheet 0 0 2 2)
           \<lparr>l_p1 = \<lparr>p_x = 1, p_y = - 5\<rparr>, l_p2 = \<lparr>p_x = 1, p_y = 5\<rparr>\<rparr>, OutZ 1 1 (- 5) 1 5), [])"
  by (simp add: sheet_try_def tape_ops_def draw_defs choose_fold_line_def Let_def tape_fold_safe
      distSq_def ZERO_TOLERANCE_def)

lemma tape_run:
  "gen_sheets tape_ops 2 1 [emptySheet] [OutHeader 2 0] [0, 0, 0, 2, 2, 2, 1, 0, 1, - 5, 1, 5]
     = (Accepted [emptySheet, rectangleSheet 0 0 2 2,
                  foldSheet (rectangleSheet 0 0 2 2)
                    \<lparr>l_p1 = \<lparr>p_x = 1, p_y = - 5\<rparr>, l_p2 = \<lparr>p_x = 1, p_y = 5\<rparr>\<rparr>],
        [OutHeader 2 0, OutP 0 0 2 2, OutZ 1 1 (- 5) 1 5], [])"
  by (simp add: gen_sheets.simps retry_loop.simps [of _ 0] MAX_TRIES_def
      tape_first_sheet tape_second_sheet)

theorem fold_commit_geometry_witness:
  "length (points (foldSheet (rectangleSheet 0 0 2 2)
       \<lparr>l_p1 = \<lparr>p_x = 1, p_y = - 5\<rparr>, l_p2 = \<lparr>p_x = 1, p_y = 5\<rparr>\<rparr>)) = 2 * length (points (rectangleSheet 0 0 2 2))
   \<and> length (lines (foldSheet (rectangleSheet 0 0 2 2)
       \<lparr>l_p1 = \<lparr>p_x = 1, p_y = - 5\<rparr>, l_p2 = \<lparr>p_x = 1, p_y = 5\<rparr>\<rparr>)) = 2 * length (lines (rectangleSheet 0 0 2 2)) + 1
   \<and> length (circles (foldSheet (rectangleSheet 0 0 2 2)
       \<lparr>l_p1 = \<lparr>p_x = 1, p_y = - 5\<rparr>, l_p2 = \<lparr>p_x = 1, p_y = 5\<rparr>\<rparr>)) = 2 * length (circles (rectangleSheet 0 0 2 2))
   \<and> points (foldSheet (rectangleSheet 0 0 2 2)
       \<lparr>l_p1 = \<lparr>p_x = 1, p_y = - 5\<rparr>, l_p2 = \<lparr>p_x = 1, p_y = 5\<rparr>\<rparr>)
      = [\<lparr>p_x = 0, p_y = 0\<rparr>, \<lparr>p_x = 2, p_y = 0\<rparr>, \<lparr>p_x = 2, p_y = 2\<rparr>, \<lparr>p_x = 0, p_y = 2\<rparr>,
         \<lparr>p_x = 2, p_y = 0\<rparr>, \<lparr>p_x = 0, p_y = 0\<rparr>, \<lparr>p_x = 0, p_y = 2\<rparr>, \<lparr>p_x = 2, p_y = 2\<rparr>]"
  using fold_commit_geometry [of tape_ops "[emptySheet, rectangleSheet 0 0 2 2]" 2 "[2, 1, 0, 1, - 5, 1, 5]"
      "foldSheet (rectangleSheet 0 0 2 2) \<lparr>l_p1 = \<lparr>p_x = 1, p_y = - 5\<rparr>, l_p2 = \<lparr>p_x = 1, p_y = 5\<rparr>\<rparr>"
      1 1 "- 5" 1 5 "[]" 2 0 "[0, 0, 0, 2, 2, 2, 1, 0, 1, - 5, 1, 5]"
      "[emptySheet, rectangleSheet 0 0 2 2,
        foldSheet (rectangleSheet 0 0 2 2) \<lparr>l_p1 = \<lparr>p_x = 1, p_y = - 5\<rparr>, l_p2 = \<lparr>p_x = 1, p_y = 5\<rparr>\<rparr>]"
      "[OutHeader 2 0, OutP 0 0 2 2, OutZ 1 1 (- 5) 1 5]" "[]" 2 1 1 "- 5" 1 5]
    tape_run tape_second_sheet
  by (simp add: rectangleSheet_def reflectPoint_def ZERO_TOLERANCE_def Let_def)

subsection \<open>Radii\<close>

lemma size_dist_range:
  "rng_ok ops \<Longrightarrow> 1 \<le> fst (size_dist ops s) \<and> fst (size_dist ops s) \<le> 5"
  by (simp add: rng_ok_def size_dist_def)

lemma foldSheet_radii: "map c_r (circles (foldSheet b l)) = map c_r (circles b) @ map c_r (circles b)"
  by (simp add: foldSheet_def comp_def)

lemma radii_in_range_foldSheet: "radii_in_range b \<Longrightarrow> radii_in_range (foldSheet b l)"
  by (auto simp: radii_in_range_def foldSheet_def)

lemma sheet_try_radii:
  assumes ok: "rng_ok ops" and inv: "\<forall>g \<in> set sheets. radii_in_range g"
    and t: "sheet_try ops sheets i s = (Accepted (g, out), s1)"
  shows "radii_in_range g"
  using sheet_try_Accepted [OF t]
proof (elim disjE exE conjE)
  fix x1 y1 sa sb
  assume "g = rectangleSheet x1 y1 (x1 + fst (size_dist ops sa)) (y1 + fst (size_dist ops sb))"
  thus ?thesis by (simp add: radii_in_range_def rectangleSheet_def)
next
  fix x y sa
  assume "g = circleSheet x y (fst (size_dist ops sa))"
  thus ?thesis using size_dist_range [OF ok, of sa] by (simp add: radii_in_range_def circleSheet_def)
next
  fix k foldLine
  assume "nat k < length sheets" and g: "g = foldSheet (sheets ! nat k) foldLine"
  hence "radii_in_range (sheets ! nat k)" using inv by simp
  thus ?thesis unfolding g by (rule radii_in_range_foldSheet)
qed

lemma gen_sheets_radii:
  assumes ok: "rng_ok ops"
    and run: "gen_sheets ops n 1 [emptySheet] fl0 s = (Accepted sheets, fl, s')"
  shows "\<forall>g \<in> set sheets. radii_in_range g"
proof -
  let ?Inv = "\<lambda>(i::int) sheets (fl::out_line list). \<forall>g \<in> set sheets. radii_in_range g"
  have base: "?Inv 1 [emptySheet] fl0" by (simp add: radii_in_range_def emptySheet_def)
  have step: "?Inv (i + 1) (sheets @ [g]) (fl @ [out])"
    if "?Inv i sheets fl" and "i \<le> n" and "sheet_try ops sheets i s = (Accepted (g, out), s1)"
    for i sheets fl s g out s1
    using sheet_try_radii [OF ok that(1,3)] that(1) by simp
  have "\<exists>i'. 1 \<le> i' \<and> n < i' \<and> ?Inv i' sheets fl"
    by (rule gen_sheets_invariant [where Inv = ?Inv, OF run base]) (rule step; assumption)
  thus ?thesis by blast
qed

text \<open>
  Claim C9. With distributions that keep to their range, every circle of every sheet
  pushed has its radius in the closed interval from 1 to 5, so above \<open>DANGER_EPS\<close>: an
  accepted attempt keeps the property, the sheets at the end of the loop have it, and
  a fold copies the radii of its source unchanged.
\<close>

theorem committed_circle_radius:
  assumes "rng_ok ops"
  shows "((\<forall>g0 \<in> set sheets0. radii_in_range g0)
            \<and> sheet_try ops sheets0 i0 s0 = (Accepted (g, out), s1) \<longrightarrow> radii_in_range g)
       \<and> (gen_sheets ops n 1 [emptySheet] [OutHeader n q] s = (Accepted sheets, fl, s') \<longrightarrow>
            (\<forall>g \<in> set sheets. \<forall>c \<in> set (circles g).
               1 \<le> c_r c \<and> c_r c \<le> 5 \<and> DANGER_EPS < c_r c))
       \<and> map c_r (circles (foldSheet b l)) = map c_r (circles b) @ map c_r (circles b)"
proof (intro conjI impI ballI)
  assume "(\<forall>g0 \<in> set sheets0. radii_in_range g0)
            \<and> sheet_try ops sheets0 i0 s0 = (Accepted (g, out), s1)"
  thus "radii_in_range g" using sheet_try_radii [OF assms] by blast
next
  show "map c_r (circles (foldSheet b l)) = map c_r (circles b) @ map c_r (circles b)"
    by (rule foldSheet_radii)
next
  fix g c
  assume "gen_sheets ops n 1 [emptySheet] [OutHeader n q] s = (Accepted sheets, fl, s')"
    and "g \<in> set sheets" and "c \<in> set (circles g)"
  with gen_sheets_radii [OF assms] have r: "1 \<le> c_r c \<and> c_r c \<le> 5"
    unfolding radii_in_range_def by blast
  thus "1 \<le> c_r c" and "c_r c \<le> 5" and "DANGER_EPS < c_r c"
    by (simp_all add: DANGER_EPS_def)
qed

lemma rng_ok_tape_ops: "rng_ok tape_ops"
  by (auto simp: rng_ok_def tape_ops_def split: list.splits)

lemma circle_tape_first_sheet:
  "sheet_try tape_ops [emptySheet] 1 [1, 0, 0, 3, 2, 1, 0, 0, - 5, 0, 5]
     = (Accepted (circleSheet 0 0 3, OutK 0 0 3), [2, 1, 0, 0, - 5, 0, 5])"
  by (simp add: sheet_try_def tape_ops_def draw_defs Let_def)

lemma circle_tape_fold_safe:
  "isSafeFold \<lparr>l_p1 = \<lparr>p_x = 0, p_y = - 5\<rparr>, l_p2 = \<lparr>p_x = 0, p_y = 5\<rparr>\<rparr> (circleSheet 0 0 3)"
  by (simp add: isSafeFold_def circleSheet_def distPointLine_def dist_pt_same_y
      in_danger_band_def ZERO_TOLERANCE_def DANGER_EPS_def Let_def)

lemma circle_tape_second_sheet:
  "sheet_try tape_ops [emptySheet, circleSheet 0 0 3] 2 [2, 1, 0, 0, - 5, 0, 5]
     = (Accepted (foldSheet (circleSheet 0 0 3)
           \<lparr>l_p1 = \<lparr>p_x = 0, p_y = - 5\<rparr>, l_p2 = \<lparr>p_x = 0, p_y = 5\<rparr>\<rparr>, OutZ 1 0 (- 5) 0 5), [])"
  by (simp add: sheet_try_def tape_ops_def draw_defs choose_fold_line_def Let_def circle_tape_fold_safe
      distSq_def ZERO_TOLERANCE_def)

lemma circle_tape_run:
  "gen_sheets tape_ops 2 1 [emptySheet] [OutHeader 2 0] [1, 0, 0, 3, 2, 1, 0, 0, - 5, 0, 5]
     = (Accepted [emptySheet, circleSheet 0 0 3,
                  foldSheet (circleSheet 0 0 3)
                    \<lparr>l_p1 = \<lparr>p_x = 0, p_y = - 5\<rparr>, l_p2 = \<lparr>p_x = 0, p_y = 5\<rparr>\<rparr>],
        [OutHeader 2 0, OutK 0 0 3, OutZ 1 0 (- 5) 0 5], [])"
  by (simp add: gen_sheets.simps retry_loop.simps [of _ 0] MAX_TRIES_def
      circle_tape_first_sheet circle_tape_second_sheet)

theorem committed_circle_radius_witness:
  "rng_ok tape_ops
   \<and> radii_in_range (foldSheet (circleSheet 0 0 3)
         \<lparr>l_p1 = \<lparr>p_x = 0, p_y = - 5\<rparr>, l_p2 = \<lparr>p_x = 0, p_y = 5\<rparr>\<rparr>)
   \<and> map c_r (circles (foldSheet (circleSheet 0 0 3)
         \<lparr>l_p1 = \<lparr>p_x = 0, p_y = - 5\<rparr>, l_p2 = \<lparr>p_x = 0, p_y = 5\<rparr>\<rparr>)) = [3, 3]"
proof -
  let ?L = "\<lparr>l_p1 = \<lparr>p_x = 0, p_y = - 5\<rparr>, l_p2 = \<lparr>p_x = 0, p_y = 5\<rparr>\<rparr>"
  have inv: "\<forall>g0 \<in> set [emptySheet, circleSheet 0 0 3]. radii_in_range g0"
    by (simp add: radii_in_range_def emptySheet_def circleSheet_def)
  note c = committed_circle_radius [OF rng_ok_tape_ops,
      of "[emptySheet, circleSheet 0 0 3]" 2 "[2, 1, 0, 0, - 5, 0, 5]"
        "foldSheet (circleSheet 0 0 3) ?L" "OutZ 1 0 (- 5) 0 5" "[]"
        2 0 "[1, 0, 0, 3, 2, 1, 0, 0, - 5, 0, 5]"
        "[emptySheet, circleSheet 0 0 3, foldSheet (circleSheet 0 0 3) ?L]"
        "[OutHeader 2 0, OutK 0 0 3, OutZ 1 0 (- 5) 0 5]" "[]" "circleSheet 0 0 3" ?L]
  from c inv circle_tape_second_sheet have "radii_in_range (foldSheet (circleSheet 0 0 3) ?L)"
    by blast
  moreover from c have "map c_r (circles (foldSheet (circleSheet 0 0 3) ?L)) = [3, 3]"
    by (simp add: circleSheet_def)
  ultimately show ?thesis using rng_ok_tape_ops by simp
qed

subsection \<open>A fold line through a centre, rejected\<close>

lemma mirror_fold_safe:
  "isSafeFold \<lparr>l_p1 = \<lparr>p_x = 0, p_y = 51 / 100\<rparr>, l_p2 = \<lparr>p_x = 1, p_y = 51 / 100\<rparr>\<rparr> (circleSheet 0 0 1)"
  by (simp add: isSafeFold_def circleSheet_def distPointLine_def dist_pt_same_x
      in_danger_band_def ZERO_TOLERANCE_def DANGER_EPS_def Let_def)

lemma mirror_fold_committed:
  "sheet_try tape_ops [emptySheet, circleSheet 0 0 1] 2 [2, 1, 0, 0, 51 / 100, 1, 51 / 100]
     = (Accepted (foldSheet (circleSheet 0 0 1)
           \<lparr>l_p1 = \<lparr>p_x = 0, p_y = 51 / 100\<rparr>, l_p2 = \<lparr>p_x = 1, p_y = 51 / 100\<rparr>\<rparr>,
         OutZ 1 0 (51 / 100) 1 (51 / 100)), [])"
  by (simp add: sheet_try_def tape_ops_def draw_defs choose_fold_line_def Let_def mirror_fold_safe
      distSq_def ZERO_TOLERANCE_def)

text \<open>
  Claim C7 as stated fails on a geometry with more than the circle. The fold of the
  circle sheet of centre \<open>(0, 0)\<close> and radius 1 across the line \<open>y = 0.51\<close> is
  accepted and pushed; the new sheet holds the circle and its mirror image of centre
  \<open>(0, 1.02)\<close>. The line \<open>y = 0\<close> passes through the centre \<open>(0, 0)\<close> and is rejected:
  its tangency gap to the mirror image is 0.02.
\<close>

theorem isSafeFold_circle_center_counterexample:
  "sheet_try tape_ops [emptySheet, circleSheet 0 0 1] 2 [2, 1, 0, 0, 51 / 100, 1, 51 / 100]
     = (Accepted (foldSheet (circleSheet 0 0 1)
           \<lparr>l_p1 = \<lparr>p_x = 0, p_y = 51 / 100\<rparr>, l_p2 = \<lparr>p_x = 1, p_y = 51 / 100\<rparr>\<rparr>,
         OutZ 1 0 (51 / 100) 1 (51 / 100)), [])
   \<and> \<lparr>c_c = \<lparr>p_x = 0, p_y = 0\<rparr>, c_r = 1\<rparr>
       \<in> set (circles (foldSheet (circleSheet 0 0 1)
           \<lparr>l_p1 = \<lparr>p_x = 0, p_y = 51 / 100\<rparr>, l_p2 = \<lparr>p_x = 1, p_y = 51 / 100\<rparr>\<rparr>))
   \<and> distPointLine \<lparr>p_x = 0, p_y = 0\<rparr> \<lparr>l_p1 = \<lparr>p_x = - 1, p_y = 0\<rparr>, l_p2 = \<lparr>p_x = 1, p_y = 0\<rparr>\<rparr> = 0
   \<and> \<not> isSafeFold \<lparr>l_p1 = \<lparr>p_x = - 1, p_y = 0\<rparr>, l_p2 = \<lparr>p_x = 1, p_y = 0\<rparr>\<rparr>
         (foldSheet (circleSheet 0 0 1)
           \<lparr>l_p1 = \<lparr>p_x = 0, p_y = 51 / 100\<rparr>, l_p2 = \<lparr>p_x = 1, p_y = 51 / 100\<rparr>\<rparr>)"
proof -
  have r: "reflectPoint \<lparr>p_x = 0, p_y = 0\<rparr>
      \<lparr>l_p1 = \<lparr>p_x = 0, p_y = 51 / 100\<rparr>, l_p2 = \<lparr>p_x = 1, p_y = 51 / 100\<rparr>\<rparr> = \<lparr>p_x = 0, p_y = 51 / 50\<rparr>"
    by (simp add: reflectPoint_def ZERO_TOLERANCE_def Let_def)
  have "distPointLine \<lparr>p_x = 0, p_y = 0\<rparr> \<lparr>l_p1 = \<lparr>p_x = - 1, p_y = 0\<rparr>, l_p2 = \<lparr>p_x = 1, p_y = 0\<rparr>\<rparr> = 0"
    by (simp add: distPointLine_def dist_pt_same_x dist_pt_same_y ZERO_TOLERANCE_def Let_def)
  moreover have "\<not> isSafeFold \<lparr>l_p1 = \<lparr>p_x = - 1, p_y = 0\<rparr>, l_p2 = \<lparr>p_x = 1, p_y = 0\<rparr>\<rparr>
         (foldSheet (circleSheet 0 0 1)
           \<lparr>l_p1 = \<lparr>p_x = 0, p_y = 51 / 100\<rparr>, l_p2 = \<lparr>p_x = 1, p_y = 51 / 100\<rparr>\<rparr>)"
    by (simp add: isSafeFold_def foldSheet_def circleSheet_def r distPointLine_def dist_pt_same_x
        dist_pt_same_y in_danger_band_def ZERO_TOLERANCE_def DANGER_EPS_def Let_def)
  ultimately show ?thesis
    using mirror_fold_committed by (simp add: foldSheet_def circleSheet_def)
qed

subsection \<open>Reflection keeps distances\<close>

lemma reflect_isometry_coords:
  fixes u v C D t :: real
  assumes t: "t * (C * C + D * D) = u * C + v * D"
  shows "(2 * t * C - u) * (2 * t * C - u) + (2 * t * D - v) * (2 * t * D - v) = u * u + v * v"
proof -
  have "(2 * t * C - u) * (2 * t * C - u) + (2 * t * D - v) * (2 * t * D - v)
        = 4 * t * (t * (C * C + D * D)) - 4 * t * (u * C + v * D) + (u * u + v * v)"
    by (simp add: algebra_simps)
  also have "\<dots> = u * u + v * v" by (simp only: t)
  finally show ?thesis .
qed

lemma distSq_reflectPoint:
  assumes nd: "ZERO_TOLERANCE \<le> distSq (l_p1 l) (l_p2 l)"
  shows "distSq (reflectPoint a l) (reflectPoint b l) = distSq a b"
proof -
  define x1 where "x1 = p_x (l_p1 l)"
  define y1 where "y1 = p_y (l_p1 l)"
  define C where "C = p_x (l_p2 l) - x1"
  define D where "D = p_y (l_p2 l) - y1"
  define ta where "ta = ((p_x a - x1) * C + (p_y a - y1) * D) / (C * C + D * D)"
  define tb where "tb = ((p_x b - x1) * C + (p_y b - y1) * D) / (C * C + D * D)"
  define u where "u = p_x a - p_x b"
  define v where "v = p_y a - p_y b"
  have n: "C * C + D * D \<noteq> 0"
    using nd ZERO_TOLERANCE_pos len_sq_distSq [of l] by (simp add: C_def D_def x1_def y1_def)
  have "ta - tb = (((p_x a - x1) * C + (p_y a - y1) * D) - ((p_x b - x1) * C + (p_y b - y1) * D))
                    / (C * C + D * D)"
    by (simp only: ta_def tb_def diff_divide_distrib)
  also have "((p_x a - x1) * C + (p_y a - y1) * D) - ((p_x b - x1) * C + (p_y b - y1) * D)
              = u * C + v * D"
    by (simp add: u_def v_def algebra_simps)
  finally have "(ta - tb) * (C * C + D * D) = u * C + v * D"
    using n by simp
  hence iso: "(2 * (ta - tb) * C - u) * (2 * (ta - tb) * C - u)
            + (2 * (ta - tb) * D - v) * (2 * (ta - tb) * D - v) = u * u + v * v"
    by (rule reflect_isometry_coords)
  have ra: "reflectPoint a l = \<lparr>p_x = 2 * (x1 + ta * C) - p_x a, p_y = 2 * (y1 + ta * D) - p_y a\<rparr>"
    by (simp add: reflectPoint_nondegenerate [OF nd] Let_def ta_def C_def D_def x1_def y1_def)
  have rb: "reflectPoint b l = \<lparr>p_x = 2 * (x1 + tb * C) - p_x b, p_y = 2 * (y1 + tb * D) - p_y b\<rparr>"
    by (simp add: reflectPoint_nondegenerate [OF nd] Let_def tb_def C_def D_def x1_def y1_def)
  have dx: "2 * (x1 + ta * C) - p_x a - (2 * (x1 + tb * C) - p_x b) = 2 * (ta - tb) * C - u"
    by (simp add: u_def algebra_simps)
  have dy: "2 * (y1 + ta * D) - p_y a - (2 * (y1 + tb * D) - p_y b) = 2 * (ta - tb) * D - v"
    by (simp add: v_def algebra_simps)
  have "distSq (reflectPoint a l) (reflectPoint b l)
        = (2 * (ta - tb) * C - u) * (2 * (ta - tb) * C - u)
        + (2 * (ta - tb) * D - v) * (2 * (ta - tb) * D - v)"
    unfolding ra rb distSq_def by (simp only: Point.simps dx dy)
  also have "\<dots> = u * u + v * v" by (rule iso)
  also have "\<dots> = distSq a b" by (simp add: distSq_def u_def v_def)
  finally show ?thesis .
qed

subsection \<open>Stored lines\<close>

lemma lines_nondegenerate_foldSheet:
  assumes "lines_nondegenerate b" and "ZERO_TOLERANCE \<le> distSq (l_p1 l) (l_p2 l)"
  shows "lines_nondegenerate (foldSheet b l)"
  using assms by (auto simp: lines_nondegenerate_def foldSheet_def distSq_reflectPoint)

lemma lines_nondegenerate_rectangleSheet:
  assumes "1 \<le> w" and "1 \<le> h"
  shows "lines_nondegenerate (rectangleSheet x1 y1 (x1 + w) (y1 + h))"
proof -
  have "1 \<le> w * w" using assms(1) mult_mono [of 1 w 1 w] by simp
  moreover have "1 \<le> h * h" using assms(2) mult_mono [of 1 h 1 h] by simp
  ultimately show ?thesis
    by (simp add: lines_nondegenerate_def rectangleSheet_def distSq_def ZERO_TOLERANCE_def)
qed

lemma sheet_try_lines:
  assumes ok: "rng_ok ops" and inv: "\<forall>g \<in> set sheets. lines_nondegenerate g"
    and t: "sheet_try ops sheets i s = (Accepted (g, out), s1)"
  shows "lines_nondegenerate g"
  using sheet_try_Accepted [OF t]
proof (elim disjE exE conjE)
  fix x1 y1 sa sb
  assume "g = rectangleSheet x1 y1 (x1 + fst (size_dist ops sa)) (y1 + fst (size_dist ops sb))"
  thus ?thesis
    using size_dist_range [OF ok, of sa] size_dist_range [OF ok, of sb]
    by (simp add: lines_nondegenerate_rectangleSheet)
next
  fix x y sa
  assume "g = circleSheet x y (fst (size_dist ops sa))"
  thus ?thesis by (simp add: lines_nondegenerate_def circleSheet_def)
next
  fix k foldLine
  assume "nat k < length sheets" and g: "g = foldSheet (sheets ! nat k) foldLine"
    and nd: "ZERO_TOLERANCE \<le> distSq (l_p1 foldLine) (l_p2 foldLine)"
  hence "lines_nondegenerate (sheets ! nat k)" using inv by simp
  thus ?thesis unfolding g using nd by (rule lines_nondegenerate_foldSheet)
qed

lemma gen_sheets_lines:
  assumes ok: "rng_ok ops"
    and run: "gen_sheets ops n 1 [emptySheet] fl0 s = (Accepted sheets, fl, s')"
  shows "\<forall>g \<in> set sheets. lines_nondegenerate g"
proof -
  let ?Inv = "\<lambda>(i::int) sheets (fl::out_line list). \<forall>g \<in> set sheets. lines_nondegenerate g"
  have base: "?Inv 1 [emptySheet] fl0" by (simp add: lines_nondegenerate_def emptySheet_def)
  have step: "?Inv (i + 1) (sheets @ [g]) (fl @ [out])"
    if "?Inv i sheets fl" and "i \<le> n" and "sheet_try ops sheets i s = (Accepted (g, out), s1)"
    for i sheets fl s g out s1
    using sheet_try_lines [OF ok that(1,3)] that(1) by simp
  have "\<exists>i'. 1 \<le> i' \<and> n < i' \<and> ?Inv i' sheets fl"
    by (rule gen_sheets_invariant [where Inv = ?Inv, OF run base]) (rule step; assumption)
  thus ?thesis by blast
qed

lemma sheet_try_degenerate:
  assumes "i \<noteq> 1" and "type_dist ops s = (ty, sa)" and "ty \<noteq> 0" and "ty \<noteq> 1"
    and "1 \<le> i - 1" and "uniform_int ops 1 (i - 1) sa = (k, sb)"
    and "0 \<le> k" and "k < int (length sheets)"
    and "choose_fold_line ops (sheets ! nat k) sb = (Some foldLine, sc)"
    and "distSq (l_p1 foldLine) (l_p2 foldLine) < ZERO_TOLERANCE"
  shows "sheet_try ops sheets i s = (Rejected, sc)"
  using assms by (simp add: sheet_try_def Let_def)

lemma retry_loop_Rejected_step:
  "body s = (Rejected, s1) \<Longrightarrow> t < MAX_TRIES \<Longrightarrow> retry_loop body t s = retry_loop body (t + 1) s1"
  by (simp add: retry_loop.simps [of body t s])

subsection \<open>The content of the file\<close>

lemma gen_sheets_file_prefix:
  assumes "gen_sheets ops n i sheets fl s = (a, fl', s')"
  shows "\<exists>rest. fl' = fl @ rest"
proof -
  let ?Inv = "\<lambda>(i::int) (sh::SheetGeometry list) f. \<exists>rest. f = fl @ rest"
  have "\<exists>i' sh'. i \<le> i' \<and> ?Inv i' sh' fl' \<and> (\<forall>sh. a = Accepted sh \<longrightarrow> sh = sh' \<and> n < i')"
    by (rule gen_sheets_invariant_any [where Inv = ?Inv, OF assms]) auto
  thus ?thesis by blast
qed

lemma gen_sheets_Rejected:
  "gen_sheets ops n i sheets fl s = (Rejected, fl', s') \<Longrightarrow>
     \<exists>sheets0 i0 s0. i \<le> i0 \<and> i0 \<le> n \<and> retry_loop (sheet_try ops sheets0 i0) 0 s0 = (Rejected, s')"
proof (induction ops n i sheets fl s rule: gen_sheets.induct)
  case (1 ops n i sheets fl s)
  show ?case
  proof (cases "i \<le> n")
    case False
    with "1.prems" show ?thesis by (simp add: gen_sheets.simps [of ops n i sheets fl s])
  next
    case True
    obtain b s1 where r: "retry_loop (sheet_try ops sheets i) 0 s = (b, s1)"
      by (cases "retry_loop (sheet_try ops sheets i) 0 s")
    show ?thesis
    proof (cases b)
      case (Accepted go)
      obtain g out where go: "go = (g, out)" by (cases go)
      have "gen_sheets ops n (i + 1) (sheets @ [g]) (fl @ [out]) s1 = (Rejected, fl', s')"
        using "1.prems" True r Accepted go by (simp add: gen_sheets.simps [of ops n i sheets fl s])
      from "1.IH" [OF True r [symmetric] Accepted go [symmetric] this]
      obtain sheets0 i0 s0 where "i + 1 \<le> i0" and r0: "i0 \<le> n"
          "retry_loop (sheet_try ops sheets0 i0) 0 s0 = (Rejected, s')"
        by blast
      hence "i \<le> i0" by simp
      with r0 show ?thesis by blast
    next
      case Rejected
      with "1.prems" True r have "s1 = s'" by (simp add: gen_sheets.simps [of ops n i sheets fl s])
      with True r Rejected show ?thesis by blast
    next
      case Undefined
      with "1.prems" True r show ?thesis by (simp add: gen_sheets.simps [of ops n i sheets fl s])
    qed
  qed
qed

lemma query_try_Accepted:
  "query_try ops sheets n s = (Accepted out, s') \<Longrightarrow> \<exists>k x y. out = OutQ k x y"
  unfolding query_try_def Let_def split_beta
  by (auto split: if_splits option.splits)

lemma gen_queries_file:
  "gen_queries ops sheets n q j fl s = (a, fl', s') \<Longrightarrow>
     \<exists>qs. fl' = fl @ qs \<and> (\<forall>out \<in> set qs. \<exists>k x y. out = OutQ k x y)"
proof (induction ops sheets n q j fl s rule: gen_queries.induct)
  case (1 ops sheets n q j fl s)
  show ?case
  proof (cases "j < q")
    case False
    with "1.prems" show ?thesis by (simp add: gen_queries.simps [of ops sheets n q j fl s])
  next
    case True
    obtain b s1 where r: "retry_loop (query_try ops sheets n) 0 s = (b, s1)"
      by (cases "retry_loop (query_try ops sheets n) 0 s")
    show ?thesis
    proof (cases b)
      case (Accepted out)
      from r Accepted obtain s0 where "query_try ops sheets n s0 = (Accepted out, s1)"
        using retry_loop_Accepted by fastforce
      from query_try_Accepted [OF this] obtain k x y where out: "out = OutQ k x y" by blast
      have "gen_queries ops sheets n q (j + 1) (fl @ [out]) s1 = (a, fl', s')"
        using "1.prems" True r Accepted by (simp add: gen_queries.simps [of ops sheets n q j fl s])
      from "1.IH" [OF True r [symmetric] Accepted this]
      obtain qs where "fl' = (fl @ [out]) @ qs" and "\<forall>e \<in> set qs. \<exists>k x y. e = OutQ k x y"
        by blast
      hence "fl' = fl @ (out # qs) \<and> (\<forall>e \<in> set (out # qs). \<exists>k x y. e = OutQ k x y)"
        using out by simp
      thus ?thesis by blast
    next
      case Rejected
      with "1.prems" True r show ?thesis by (simp add: gen_queries.simps [of ops sheets n q j fl s])
    next
      case Undefined
      with "1.prems" True r show ?thesis by (simp add: gen_queries.simps [of ops sheets n q j fl s])
    qed
  qed
qed

lemma gen_queries_Rejected:
  "gen_queries ops sheets n q j fl s = (Rejected, fl', s') \<Longrightarrow>
     \<exists>s0. retry_loop (query_try ops sheets n) 0 s0 = (Rejected, s')"
proof (induction ops sheets n q j fl s rule: gen_queries.induct)
  case (1 ops sheets n q j fl s)
  show ?case
  proof (cases "j < q")
    case False
    with "1.prems" show ?thesis by (simp add: gen_queries.simps [of ops sheets n q j fl s])
  next
    case True
    obtain b s1 where r: "retry_loop (query_try ops sheets n) 0 s = (b, s1)"
      by (cases "retry_loop (query_try ops sheets n) 0 s")
    show ?thesis
    proof (cases b)
      case (Accepted out)
      have "gen_queries ops sheets n q (j + 1) (fl @ [out]) s1 = (Rejected, fl', s')"
        using "1.prems" True r Accepted by (simp add: gen_queries.simps [of ops sheets n q j fl s])
      from "1.IH" [OF True r [symmetric] Accepted this] show ?thesis .
    next
      case Rejected
      with "1.prems" True r have "s1 = s'" by (simp add: gen_queries.simps [of ops sheets n q j fl s])
      with r Rejected show ?thesis by blast
    next
      case Undefined
      with "1.prems" True r show ?thesis by (simp add: gen_queries.simps [of ops sheets n q j fl s])
    qed
  qed
qed

lemma generate_test_file:
  assumes "generate_test ops True s n q = (st, fl, s')" and "st \<noteq> LengthError"
  shows "\<exists>rest. fl = OutHeader n q # rest"
proof -
  from assms have n: "\<not> n + 1 < 0" by (auto simp: generate_test_def)
  obtain a f1 s1 where g: "gen_sheets ops n 1 [emptySheet] [OutHeader n q] s = (a, f1, s1)"
    by (cases "gen_sheets ops n 1 [emptySheet] [OutHeader n q] s")
  from gen_sheets_file_prefix [OF g] obtain r1 where f1: "f1 = [OutHeader n q] @ r1" ..
  show ?thesis
  proof (cases a)
    case (Accepted sheets)
    obtain b f2 s2 where q: "gen_queries ops sheets n q 0 f1 s1 = (b, f2, s2)"
      by (cases "gen_queries ops sheets n q 0 f1 s1")
    from gen_queries_file [OF q] obtain qs where "f2 = f1 @ qs" by blast
    moreover have "fl = f2"
      using assms(1) n g Accepted q by (cases b) (simp_all add: generate_test_def)
    ultimately show ?thesis using f1 by simp
  next
    case Rejected
    with assms(1) n g f1 show ?thesis by (auto simp: generate_test_def)
  next
    case Undefined
    with assms(1) n g f1 show ?thesis by (auto simp: generate_test_def)
  qed
qed

lemma generate_test_False:
  assumes "generate_test ops True s n q = (Returned False, fl, s')"
  shows "(\<exists>sheets i s0. 1 \<le> i \<and> i \<le> n
            \<and> retry_loop (sheet_try ops sheets i) 0 s0 = (Rejected, s'))
       \<or> (\<exists>sheets s0. retry_loop (query_try ops sheets n) 0 s0 = (Rejected, s'))"
proof -
  from assms have n: "\<not> n + 1 < 0" by (auto simp: generate_test_def)
  obtain a f1 s1 where g: "gen_sheets ops n 1 [emptySheet] [OutHeader n q] s = (a, f1, s1)"
    by (cases "gen_sheets ops n 1 [emptySheet] [OutHeader n q] s")
  show ?thesis
  proof (cases a)
    case (Accepted sheets)
    obtain b f2 s2 where q: "gen_queries ops sheets n q 0 f1 s1 = (b, f2, s2)"
      by (cases "gen_queries ops sheets n q 0 f1 s1")
    have "b = Rejected \<and> s2 = s'"
      using assms n g Accepted q by (cases b) (simp_all add: generate_test_def)
    with q have "gen_queries ops sheets n q 0 f1 s1 = (Rejected, f2, s')" by simp
    from gen_queries_Rejected [OF this] show ?thesis by blast
  next
    case Rejected
    with assms n g have "s1 = s'" by (simp add: generate_test_def)
    with g Rejected have "gen_sheets ops n 1 [emptySheet] [OutHeader n q] s = (Rejected, f1, s')"
      by simp
    from gen_sheets_Rejected [OF this] show ?thesis by blast
  next
    case Undefined
    with assms n g show ?thesis by (simp add: generate_test_def)
  qed
qed

lemma len_sq_eq_distSq: "len_sq l = distSq (l_p1 l) (l_p2 l)"
  by (simp add: len_sq_def Let_def len_sq_distSq)

lemma reflectPoint_fallback:
  "reflectPoint p l = p" if "len_sq l < ZERO_TOLERANCE"
  using that by (simp add: reflectPoint_def len_sq_def Let_def)

lemma distPointLine_fallback:
  "distPointLine p l = dist_pt p (l_p1 l)" if "len_sq l < ZERO_TOLERANCE"
  using that by (simp add: distPointLine_def len_sq_def Let_def)

subsection \<open>Fallback of the strategies\<close>

text \<open>
  Claim C10. When the strategy drawn is 1 and the source sheet has no point, or is 2
  and the source sheet has no circle, the fold line is the fully random one, drawn
  from the state left by the one draw of the strategy: the attempt does not fail and
  the strategy is not drawn again. In the same way a query on a sheet without points
  gets a random point whenever the strategy is not 0.
\<close>

theorem empty_source_falls_back_to_random:
  "((fst (uniform_int ops 0 2 s) = 1 \<and> points baseGeom = []
       \<or> fst (uniform_int ops 0 2 s) = 2 \<and> circles baseGeom = []) \<longrightarrow>
      choose_fold_line ops baseGeom s
        = (Some (fst (random_line ops (snd (uniform_int ops 0 2 s)))),
           snd (random_line ops (snd (uniform_int ops 0 2 s)))))
   \<and> (fst (uniform_int ops 0 2 s) \<noteq> 0 \<and> points geom = [] \<longrightarrow>
      choose_query_point ops geom s
        = (Some (fst (random_point ops (snd (uniform_int ops 0 2 s)))),
           snd (random_point ops (snd (uniform_int ops 0 2 s)))))"
  by (auto simp: choose_fold_line_def choose_query_point_def Let_def split_beta)

theorem empty_source_falls_back_to_random_witness:
  "choose_fold_line tape_ops emptySheet [1, 1, 2, 3, 4]
     = (Some \<lparr>l_p1 = \<lparr>p_x = 1, p_y = 2\<rparr>, l_p2 = \<lparr>p_x = 3, p_y = 4\<rparr>\<rparr>, [])
   \<and> choose_fold_line tape_ops (rectangleSheet 0 0 1 1) [2, 1, 2, 3, 4]
     = (Some \<lparr>l_p1 = \<lparr>p_x = 1, p_y = 2\<rparr>, l_p2 = \<lparr>p_x = 3, p_y = 4\<rparr>\<rparr>, [])
   \<and> choose_query_point tape_ops emptySheet [1, 7, 8] = (Some \<lparr>p_x = 7, p_y = 8\<rparr>, [])"
  using empty_source_falls_back_to_random [of tape_ops "[1, 1, 2, 3, 4]" emptySheet emptySheet]
    empty_source_falls_back_to_random [of tape_ops "[2, 1, 2, 3, 4]" "rectangleSheet 0 0 1 1" emptySheet]
    empty_source_falls_back_to_random [of tape_ops "[1, 7, 8]" emptySheet emptySheet]
  by (simp add: tape_ops_def emptySheet_def rectangleSheet_def draw_defs Let_def)

subsection \<open>Exhausted retry loops\<close>

lemma const_first_sheet:
  "sheet_try const_ops [emptySheet] 1 ()
     = (Accepted (rectangleSheet (- 10) (- 10) (- 9) (- 9), OutP (- 10) (- 10) (- 9) (- 9)), ())"
  by (simp add: sheet_try_def const_ops_def draw_defs Let_def)

lemma const_second_sheet:
  "sheet_try const_ops [emptySheet, rectangleSheet (- 10) (- 10) (- 9) (- 9)] 2 () = (Rejected, ())"
  by (simp add: sheet_try_def const_ops_def draw_defs choose_fold_line_def Let_def
      rectangleSheet_def distSq_def ZERO_TOLERANCE_def)

lemma const_run:
  assumes "2 \<le> n"
  shows "gen_sheets const_ops n 1 [emptySheet] [OutHeader n q] ()
     = (Rejected, [OutHeader n q, OutP (- 10) (- 10) (- 9) (- 9)], ())"
proof -
  have "retry_loop (sheet_try const_ops [emptySheet, rectangleSheet (- 10) (- 10) (- 9) (- 9)] 2) 0 ()
          = (Rejected, ())"
    by (rule retry_loop_Rejected_const) (rule const_second_sheet)
  thus ?thesis
    using assms
    by (simp add: gen_sheets.simps [of _ _ 1] gen_sheets.simps [of _ _ 2]
        retry_loop.simps [of "sheet_try const_ops [emptySheet] 1" 0] MAX_TRIES_def const_first_sheet)
qed

text \<open>
  Claim C6, as amended. A retry loop of a sheet or of a query ends without an accepted
  candidate exactly when each of its \<open>MAX_TRIES = 100\<close> passes rejects, the random
  source being left in the state after the hundredth pass. The loop of the sheets,
  the loop of the queries and \<^verbatim>\<open>generate_test\<close> then stop at once:
  \<^verbatim>\<open>generate_test\<close> returns \<^verbatim>\<open>false\<close>, and the file keeps what was written before,
  the header line first. Whenever \<^verbatim>\<open>generate_test\<close> returns \<^verbatim>\<open>false\<close> on an open file,
  one of the retry loops was exhausted and the file begins with the header.
\<close>

theorem retry_exhaustion_fails_generation:
  "MAX_TRIES = 100
   \<and> (retry_loop (sheet_try ops sheets i) 0 s = (Rejected, s') \<longleftrightarrow>
        (\<forall>j < MAX_TRIES.
            fst (sheet_try ops sheets i (state_after (sheet_try ops sheets i) j s)) = Rejected)
        \<and> s' = state_after (sheet_try ops sheets i) MAX_TRIES s)
   \<and> (retry_loop (query_try ops sheets n) 0 s = (Rejected, s') \<longleftrightarrow>
        (\<forall>j < MAX_TRIES.
            fst (query_try ops sheets n (state_after (query_try ops sheets n) j s)) = Rejected)
        \<and> s' = state_after (query_try ops sheets n) MAX_TRIES s)
   \<and> (i \<le> n \<and> retry_loop (sheet_try ops sheets i) 0 s = (Rejected, s') \<longrightarrow>
        gen_sheets ops n i sheets fl s = (Rejected, fl, s'))
   \<and> (j < q \<and> retry_loop (query_try ops sheets n) 0 s = (Rejected, s') \<longrightarrow>
        gen_queries ops sheets n q j fl s = (Rejected, fl, s'))
   \<and> (\<not> n + 1 < 0 \<and> gen_sheets ops n 1 [emptySheet] [OutHeader n q] s0 = (Rejected, fl1, s1) \<longrightarrow>
        generate_test ops True s0 n q = (Returned False, fl1, s1))
   \<and> (\<not> n + 1 < 0
        \<and> gen_sheets ops n 1 [emptySheet] [OutHeader n q] s0 = (Accepted sheets1, fl1, s1)
        \<and> gen_queries ops sheets1 n q 0 fl1 s1 = (Rejected, fl2, s2) \<longrightarrow>
        generate_test ops True s0 n q = (Returned False, fl2, s2))
   \<and> (generate_test ops True s0 n q = (Returned False, fl3, s3) \<longrightarrow>
        (\<exists>rest. fl3 = OutHeader n q # rest)
        \<and> ((\<exists>sh i0 sa. 1 \<le> i0 \<and> i0 \<le> n
                \<and> retry_loop (sheet_try ops sh i0) 0 sa = (Rejected, s3))
           \<or> (\<exists>sh sa. retry_loop (query_try ops sh n) 0 sa = (Rejected, s3))))"
proof (intro conjI impI)
  show "MAX_TRIES = 100" by (simp add: MAX_TRIES_def)
  show "retry_loop (sheet_try ops sheets i) 0 s = (Rejected, s') \<longleftrightarrow>
        (\<forall>j < MAX_TRIES.
            fst (sheet_try ops sheets i (state_after (sheet_try ops sheets i) j s)) = Rejected)
        \<and> s' = state_after (sheet_try ops sheets i) MAX_TRIES s"
    using retry_loop_Rejected_iff [of "sheet_try ops sheets i" 0 s s'] by simp
  show "retry_loop (query_try ops sheets n) 0 s = (Rejected, s') \<longleftrightarrow>
        (\<forall>j < MAX_TRIES.
            fst (query_try ops sheets n (state_after (query_try ops sheets n) j s)) = Rejected)
        \<and> s' = state_after (query_try ops sheets n) MAX_TRIES s"
    using retry_loop_Rejected_iff [of "query_try ops sheets n" 0 s s'] by simp
  show "gen_sheets ops n i sheets fl s = (Rejected, fl, s')"
    if "i \<le> n \<and> retry_loop (sheet_try ops sheets i) 0 s = (Rejected, s')"
    using that by (simp add: gen_sheets.simps [of ops n i sheets fl s])
  show "gen_queries ops sheets n q j fl s = (Rejected, fl, s')"
    if "j < q \<and> retry_loop (query_try ops sheets n) 0 s = (Rejected, s')"
    using that by (simp add: gen_queries.simps [of ops sheets n q j fl s])
  show "generate_test ops True s0 n q = (Returned False, fl1, s1)"
    if "\<not> n + 1 < 0 \<and> gen_sheets ops n 1 [emptySheet] [OutHeader n q] s0 = (Rejected, fl1, s1)"
    using that by (simp add: generate_test_def)
  show "generate_test ops True s0 n q = (Returned False, fl2, s2)"
    if "\<not> n + 1 < 0
        \<and> gen_sheets ops n 1 [emptySheet] [OutHeader n q] s0 = (Accepted sheets1, fl1, s1)
        \<and> gen_queries ops sheets1 n q 0 fl1 s1 = (Rejected, fl2, s2)"
    using that by (simp add: generate_test_def)
  assume f: "generate_test ops True s0 n q = (Returned False, fl3, s3)"
  show "\<exists>rest. fl3 = OutHeader n q # rest"
    by (rule generate_test_file [OF f]) simp
  show "(\<exists>sh i0 sa. 1 \<le> i0 \<and> i0 \<le> n
                \<and> retry_loop (sheet_try ops sh i0) 0 sa = (Rejected, s3))
           \<or> (\<exists>sh sa. retry_loop (query_try ops sh n) 0 sa = (Rejected, s3))"
    by (rule generate_test_False [OF f])
qed

theorem retry_exhaustion_fails_generation_witness:
  "retry_loop (sheet_try const_ops [emptySheet, rectangleSheet (- 10) (- 10) (- 9) (- 9)] 2) 0 ()
     = (Rejected, ())
   \<and> gen_sheets const_ops 2 2 [emptySheet, rectangleSheet (- 10) (- 10) (- 9) (- 9)]
        [OutHeader 2 1, OutP (- 10) (- 10) (- 9) (- 9)] ()
     = (Rejected, [OutHeader 2 1, OutP (- 10) (- 10) (- 9) (- 9)], ())
   \<and> generate_test const_ops True () 2 1
     = (Returned False, [OutHeader 2 1, OutP (- 10) (- 10) (- 9) (- 9)], ())"
proof -
  let ?R = "rectangleSheet (- 10) (- 10) (- 9) (- 9)"
  let ?fl = "[OutHeader 2 1, OutP (- 10) (- 10) (- 9) (- 9)]"
  note t = retry_exhaustion_fails_generation [of const_ops "[emptySheet, ?R]" 2 "()" "()" 2 ?fl
      0 1 "()" ?fl "()" "[]" "[]" "()" "[]" "()"]
  have a: "retry_loop (sheet_try const_ops [emptySheet, ?R] 2) 0 () = (Rejected, ())"
    using t by (simp add: const_second_sheet)
  with t have b: "gen_sheets const_ops 2 2 [emptySheet, ?R] ?fl () = (Rejected, ?fl, ())"
    by simp
  have "gen_sheets const_ops 2 1 [emptySheet] [OutHeader 2 1] () = (Rejected, ?fl, ())"
    using b by (simp add: gen_sheets.simps [of _ _ 1]
        retry_loop.simps [of "sheet_try const_ops [emptySheet] 1" 0] MAX_TRIES_def const_first_sheet)
  with t have "generate_test const_ops True () 2 1 = (Returned False, ?fl, ())"
    by simp
  with a b show ?thesis by simp
qed

text \<open>
  Claim C6 as stated fails on its last part: with \<open>n = 3\<close> and a random source whose
  every fold line is degenerate, the loop of sheet 2 is exhausted, \<^verbatim>\<open>generate_test\<close>
  returns \<^verbatim>\<open>false\<close>, and the file holds the header and the record of sheet 1.
\<close>

theorem partial_output_counterexample:
  "retry_loop (sheet_try const_ops [emptySheet, rectangleSheet (- 10) (- 10) (- 9) (- 9)] 2) 0 ()
     = (Rejected, ())
   \<and> generate_test const_ops True () 3 3
     = (Returned False, [OutHeader 3 3, OutP (- 10) (- 10) (- 9) (- 9)], ())"
  using const_run [of 3 3]
    retry_loop_Rejected_const
      [of "sheet_try const_ops [emptySheet, rectangleSheet (- 10) (- 10) (- 9) (- 9)] 2" "()" 0]
  by (simp add: generate_test_def const_second_sheet)

subsection \<open>Degenerate fold lines\<close>

lemma gen_sheets_OutZ:
  assumes "gen_sheets ops n 1 [emptySheet] [OutHeader n q] s = (a, fl, s')"
    and "OutZ k x1 y1 x2 y2 \<in> set fl"
  shows "ZERO_TOLERANCE \<le> distSq \<lparr>p_x = x1, p_y = y1\<rparr> \<lparr>p_x = x2, p_y = y2\<rparr>"
proof -
  let ?Inv = "\<lambda>(i::int) (sh::SheetGeometry list) f.
     \<forall>k x1 y1 x2 y2. OutZ k x1 y1 x2 y2 \<in> set f
        \<longrightarrow> ZERO_TOLERANCE \<le> distSq \<lparr>p_x = x1, p_y = y1\<rparr> \<lparr>p_x = x2, p_y = y2\<rparr>"
  have base: "?Inv 1 [emptySheet] [OutHeader n q]" by simp
  have step: "?Inv (i + 1) (sheets @ [g]) (f @ [out])"
    if inv: "?Inv i sheets f" and "i \<le> n"
      and t: "sheet_try ops sheets i s = (Accepted (g, out), s1)"
    for i sheets f s g out s1
  proof (intro allI impI)
    fix k x1 y1 x2 y2
    assume "OutZ k x1 y1 x2 y2 \<in> set (f @ [out])"
    hence "OutZ k x1 y1 x2 y2 \<in> set f \<or> out = OutZ k x1 y1 x2 y2" by auto
    thus "ZERO_TOLERANCE \<le> distSq \<lparr>p_x = x1, p_y = y1\<rparr> \<lparr>p_x = x2, p_y = y2\<rparr>"
    proof
      assume "OutZ k x1 y1 x2 y2 \<in> set f"
      with inv show ?thesis by blast
    next
      assume "out = OutZ k x1 y1 x2 y2"
      with t have "sheet_try ops sheets i s = (Accepted (g, OutZ k x1 y1 x2 y2), s1)" by simp
      from sheet_try_OutZ [OF this] show ?thesis by simp
    qed
  qed
  have "\<exists>i' sh'. 1 \<le> i' \<and> ?Inv i' sh' fl \<and> (\<forall>sh. a = Accepted sh \<longrightarrow> sh = sh' \<and> n < i')"
    by (rule gen_sheets_invariant_any [where Inv = ?Inv, OF assms(1) base]) (rule step; assumption)
  with assms(2) show ?thesis by blast
qed

lemma generate_test_OutZ:
  assumes "generate_test ops is_open s n q = (st, fl, s')"
    and z: "OutZ k x1 y1 x2 y2 \<in> set fl"
  shows "ZERO_TOLERANCE \<le> distSq \<lparr>p_x = x1, p_y = y1\<rparr> \<lparr>p_x = x2, p_y = y2\<rparr>"
proof -
  from assms have o: "is_open" and n: "\<not> n + 1 < 0"
    by (auto simp: generate_test_def split: if_splits)
  obtain a f1 s1 where g: "gen_sheets ops n 1 [emptySheet] [OutHeader n q] s = (a, f1, s1)"
    by (cases "gen_sheets ops n 1 [emptySheet] [OutHeader n q] s")
  have "OutZ k x1 y1 x2 y2 \<in> set f1"
  proof (cases a)
    case (Accepted sheets)
    obtain b f2 s2 where q: "gen_queries ops sheets n q 0 f1 s1 = (b, f2, s2)"
      by (cases "gen_queries ops sheets n q 0 f1 s1")
    from gen_queries_file [OF q] obtain qs
      where f2: "f2 = f1 @ qs" and qs: "\<forall>e \<in> set qs. \<exists>k x y. e = OutQ k x y" by blast
    have "fl = f2"
      using assms(1) o n g Accepted q by (cases b) (simp_all add: generate_test_def)
    with z f2 have "OutZ k x1 y1 x2 y2 \<in> set f1 \<or> OutZ k x1 y1 x2 y2 \<in> set qs" by simp
    with qs show ?thesis by auto
  next
    case Rejected
    with assms(1) o n g z show ?thesis by (simp add: generate_test_def)
  next
    case Undefined
    with assms(1) o n g z show ?thesis by (simp add: generate_test_def)
  qed
  with g show ?thesis by (rule gen_sheets_OutZ)
qed

text \<open>
  Claim C8. A fold line whose two points have \<^verbatim>\<open>distSq\<close> below \<open>ZERO_TOLERANCE\<close> makes
  the attempt reject, and the loop goes on with the next value of \<^verbatim>\<open>try_count\<close>. The
  fold line of an accepted attempt, which is the last line of the new sheet, and
  every fold line written to the file, whatever the end of \<^verbatim>\<open>generate_test\<close>, has
  \<^verbatim>\<open>distSq\<close> at least \<open>ZERO_TOLERANCE\<close>. With distributions that keep to their range this
  holds of every line stored in every sheet, so that the test
  \<^verbatim>\<open>len_sq < ZERO_TOLERANCE\<close> of \<^verbatim>\<open>distPointLine\<close> and \<^verbatim>\<open>reflectPoint\<close> is false for it.
\<close>

theorem degenerate_fold_line_never_committed:
  "(ix \<noteq> 1 \<and> type_dist ops sx = (ty, sa) \<and> ty \<noteq> 0 \<and> ty \<noteq> 1 \<and> 1 \<le> ix - 1
      \<and> uniform_int ops 1 (ix - 1) sa = (kx, sb) \<and> 0 \<le> kx \<and> kx < int (length shs)
      \<and> choose_fold_line ops (shs ! nat kx) sb = (Some foldLine, sc)
      \<and> distSq (l_p1 foldLine) (l_p2 foldLine) < ZERO_TOLERANCE \<longrightarrow>
        sheet_try ops shs ix sx = (Rejected, sc)
      \<and> (\<forall>t < MAX_TRIES. retry_loop (sheet_try ops shs ix) t sx
                           = retry_loop (sheet_try ops shs ix) (t + 1) sc))
   \<and> (sheet_try ops shs ix sx = (Accepted (g, OutZ k xa ya xb yb), sd) \<longrightarrow>
        ZERO_TOLERANCE \<le> distSq \<lparr>p_x = xa, p_y = ya\<rparr> \<lparr>p_x = xb, p_y = yb\<rparr>
      \<and> \<not> len_sq \<lparr>l_p1 = \<lparr>p_x = xa, p_y = ya\<rparr>, l_p2 = \<lparr>p_x = xb, p_y = yb\<rparr>\<rparr> < ZERO_TOLERANCE
      \<and> last (lines g) = \<lparr>l_p1 = \<lparr>p_x = xa, p_y = ya\<rparr>, l_p2 = \<lparr>p_x = xb, p_y = yb\<rparr>\<rparr>)
   \<and> (generate_test ops is_open s n q = (st, fl, s') \<and> OutZ k' xc yc xd yd \<in> set fl \<longrightarrow>
        ZERO_TOLERANCE \<le> distSq \<lparr>p_x = xc, p_y = yc\<rparr> \<lparr>p_x = xd, p_y = yd\<rparr>)
   \<and> (rng_ok ops \<and> (\<forall>gx \<in> set shs. lines_nondegenerate gx)
        \<and> sheet_try ops shs ix sx = (Accepted (g, out), sd) \<longrightarrow> lines_nondegenerate g)
   \<and> (rng_ok ops
        \<and> gen_sheets ops n 1 [emptySheet] [OutHeader n q] s = (Accepted sheets, fl', s'') \<longrightarrow>
        (\<forall>h \<in> set sheets. \<forall>l \<in> set (lines h).
            ZERO_TOLERANCE \<le> distSq (l_p1 l) (l_p2 l) \<and> \<not> len_sq l < ZERO_TOLERANCE))"
proof (intro conjI impI allI ballI)
  assume a: "ix \<noteq> 1 \<and> type_dist ops sx = (ty, sa) \<and> ty \<noteq> 0 \<and> ty \<noteq> 1 \<and> 1 \<le> ix - 1
      \<and> uniform_int ops 1 (ix - 1) sa = (kx, sb) \<and> 0 \<le> kx \<and> kx < int (length shs)
      \<and> choose_fold_line ops (shs ! nat kx) sb = (Some foldLine, sc)
      \<and> distSq (l_p1 foldLine) (l_p2 foldLine) < ZERO_TOLERANCE"
  thus r: "sheet_try ops shs ix sx = (Rejected, sc)"
    by (intro sheet_try_degenerate [of ix ops sx ty sa kx sb shs foldLine sc]) simp_all
  fix t
  assume "t < MAX_TRIES"
  with r show "retry_loop (sheet_try ops shs ix) t sx
                 = retry_loop (sheet_try ops shs ix) (t + 1) sc"
    by (rule retry_loop_Rejected_step)
next
  assume "sheet_try ops shs ix sx = (Accepted (g, OutZ k xa ya xb yb), sd)"
  note f = sheet_try_OutZ [OF this]
  thus nd: "ZERO_TOLERANCE \<le> distSq \<lparr>p_x = xa, p_y = ya\<rparr> \<lparr>p_x = xb, p_y = yb\<rparr>" by simp
  thus "\<not> len_sq \<lparr>l_p1 = \<lparr>p_x = xa, p_y = ya\<rparr>, l_p2 = \<lparr>p_x = xb, p_y = yb\<rparr>\<rparr> < ZERO_TOLERANCE"
    by (simp add: len_sq_eq_distSq)
  from f show "last (lines g) = \<lparr>l_p1 = \<lparr>p_x = xa, p_y = ya\<rparr>, l_p2 = \<lparr>p_x = xb, p_y = yb\<rparr>\<rparr>"
    by (simp add: foldSheet_def)
next
  assume "generate_test ops is_open s n q = (st, fl, s') \<and> OutZ k' xc yc xd yd \<in> set fl"
  hence "generate_test ops is_open s n q = (st, fl, s')" and "OutZ k' xc yc xd yd \<in> set fl"
    by simp_all
  thus "ZERO_TOLERANCE \<le> distSq \<lparr>p_x = xc, p_y = yc\<rparr> \<lparr>p_x = xd, p_y = yd\<rparr>"
    by (rule generate_test_OutZ)
next
  assume "rng_ok ops \<and> (\<forall>gx \<in> set shs. lines_nondegenerate gx)
        \<and> sheet_try ops shs ix sx = (Accepted (g, out), sd)"
  hence "rng_ok ops" and "\<forall>gx \<in> set shs. lines_nondegenerate gx"
    and "sheet_try ops shs ix sx = (Accepted (g, out), sd)" by simp_all
  thus "lines_nondegenerate g" by (rule sheet_try_lines)
next
  fix h l
  assume "rng_ok ops
        \<and> gen_sheets ops n 1 [emptySheet] [OutHeader n q] s = (Accepted sheets, fl', s'')"
    and "h \<in> set sheets" and "l \<in> set (lines h)"
  with gen_sheets_lines [of ops n "[OutHeader n q]" s sheets fl' s'']
  show nd: "ZERO_TOLERANCE \<le> distSq (l_p1 l) (l_p2 l)"
    unfolding lines_nondegenerate_def by blast
  thus "\<not> len_sq l < ZERO_TOLERANCE" by (simp add: len_sq_eq_distSq)
qed

theorem degenerate_fold_line_never_committed_witness:
  "sheet_try const_ops [emptySheet, rectangleSheet (- 10) (- 10) (- 9) (- 9)] 2 () = (Rejected, ())
   \<and> retry_loop (sheet_try const_ops [emptySheet, rectangleSheet (- 10) (- 10) (- 9) (- 9)] 2) 0 ()
       = retry_loop (sheet_try const_ops [emptySheet, rectangleSheet (- 10) (- 10) (- 9) (- 9)] 2) 1 ()
   \<and> ZERO_TOLERANCE \<le> distSq \<lparr>p_x = 1, p_y = - 5\<rparr> \<lparr>p_x = 1, p_y = 5\<rparr>
   \<and> lines_nondegenerate (foldSheet (rectangleSheet 0 0 2 2)
        \<lparr>l_p1 = \<lparr>p_x = 1, p_y = - 5\<rparr>, l_p2 = \<lparr>p_x = 1, p_y = 5\<rparr>\<rparr>)"
proof -
  let ?R = "rectangleSheet (- 10) (- 10) (- 9) (- 9)"
  let ?P = "\<lparr>p_x = - 10, p_y = - 10\<rparr>"
  let ?L = "\<lparr>l_p1 = \<lparr>p_x = 1, p_y = - 5\<rparr>, l_p2 = \<lparr>p_x = 1, p_y = 5\<rparr>\<rparr>"
  have c: "choose_fold_line const_ops ([emptySheet, ?R] ! nat 1) ()
             = (Some \<lparr>l_p1 = ?P, l_p2 = ?P\<rparr>, ())"
    by (simp add: choose_fold_line_def const_ops_def draw_defs rectangleSheet_def Let_def)
  note d = degenerate_fold_line_never_committed
    [where ops = const_ops and ix = 2 and sx = "()" and ty = 2 and sa = "()" and kx = 1
        and sb = "()" and shs = "[emptySheet, ?R]" and foldLine = "\<lparr>l_p1 = ?P, l_p2 = ?P\<rparr>"
        and sc = "()"]
  have "sheet_try const_ops [emptySheet, ?R] 2 () = (Rejected, ())
      \<and> (\<forall>t < MAX_TRIES. retry_loop (sheet_try const_ops [emptySheet, ?R] 2) t ()
                           = retry_loop (sheet_try const_ops [emptySheet, ?R] 2) (t + 1) ())"
    using d [THEN conjunct1] c
    by (simp add: type_dist_def const_ops_def distSq_def ZERO_TOLERANCE_def)
  hence a: "sheet_try const_ops [emptySheet, ?R] 2 () = (Rejected, ())"
    and b: "retry_loop (sheet_try const_ops [emptySheet, ?R] 2) 0 ()
              = retry_loop (sheet_try const_ops [emptySheet, ?R] 2) 1 ()"
    by (simp_all add: MAX_TRIES_def)
  note e = degenerate_fold_line_never_committed
    [where ops = tape_ops and ix = 2 and sx = "[2, 1, 0, 1, - 5, 1, 5]"
        and shs = "[emptySheet, rectangleSheet 0 0 2 2]"
        and g = "foldSheet (rectangleSheet 0 0 2 2) ?L" and k = 1 and xa = 1 and ya = "- 5"
        and xb = 1 and yb = 5 and sd = "[]" and out = "OutZ 1 1 (- 5) 1 5"]
  have inv: "\<forall>gx \<in> set [emptySheet, rectangleSheet 0 0 2 2]. lines_nondegenerate gx"
    by (simp add: lines_nondegenerate_def emptySheet_def rectangleSheet_def distSq_def
        ZERO_TOLERANCE_def)
  from e [THEN conjunct2, THEN conjunct1] tape_second_sheet
  have f: "ZERO_TOLERANCE \<le> distSq \<lparr>p_x = 1, p_y = - 5\<rparr> \<lparr>p_x = 1, p_y = 5\<rparr>" by simp
  from e [THEN conjunct2, THEN conjunct2, THEN conjunct2, THEN conjunct1]
    tape_second_sheet inv rng_ok_tape_ops
  have "lines_nondegenerate (foldSheet (rectangleSheet 0 0 2 2) ?L)" by simp
  with a b f show ?thesis by simp
qed

end
